theory Spec2Isabelle
  imports Complex_Main
begin

section \<open>Python values used by the bridge\<close>

text \<open>
  The exceptions the two programs can meet. Every constructor stands for a subclass of
  Python's \<open>Exception\<close>; \<open>RequestException\<close> stands for the whole family of the
  \<open>requests\<close> library (connection errors, timeouts, \<open>HTTPError\<close>, its JSON decoding
  error), \<open>SerialException\<close> and \<open>ModbusException\<close> for what the serial line and the
  Modbus library raise.
\<close>

datatype exn =
    TypeError | ValueError | OverflowError | IndexError | KeyError
  | RequestException | SerialException | ModbusException

text \<open>
  A Python \<open>float\<close> is an IEEE binary64 number: a finite value (kept as the rational it
  denotes), an infinity or a NaN. The sign of zero is not kept: no operation of the
  programs observes it.
\<close>

datatype pyfloat = Finite rat | PosInf | NegInf | NaN

function bitlen :: "int \<Rightarrow> int" where
  \<comment> \<open>the number of binary digits of a positive integer\<close>
  "bitlen n = (if n \<le> 0 then 0 else 1 + bitlen (n div 2))"
  by pat_completeness auto

termination bitlen
  by (relation "measure nat") auto

declare bitlen.simps [simp del]

definition pow2 :: "int \<Rightarrow> rat" where
  "pow2 e = (if 0 \<le> e then 2 ^ nat e else 1 / 2 ^ nat (- e))"

definition binade :: "rat \<Rightarrow> int" where
  \<comment> \<open>for \<open>x > 0\<close>: the \<open>e\<close> with \<open>2^e \<le> x < 2^(e+1)\<close>\<close>
  "binade x = (if 1 \<le> x then bitlen \<lfloor>x\<rfloor> - 1 else - bitlen (\<lceil>1 / x\<rceil> - 1))"

definition round_half_even :: "rat \<Rightarrow> int" where
  "round_half_even m =
     (let f = \<lfloor>m\<rfloor>; d = m - of_int f
      in if d < 1 / 2 then f
         else if 1 / 2 < d then f + 1
         else if even f then f else f + 1)"

definition round64 :: "rat \<Rightarrow> pyfloat" where
  \<comment> \<open>round to nearest, ties to even, 53 significant bits, least exponent \<open>-1074\<close>;
      a result of magnitude \<open>2^1024\<close> or more is an infinity\<close>
  "round64 x =
     (if x = 0 then Finite 0
      else let e = max (binade \<bar>x\<bar> - 52) (- 1074);
               r = of_int (round_half_even (x / pow2 e)) * pow2 e
           in if 2 ^ 1024 \<le> \<bar>r\<bar> then (if 0 < x then PosInf else NegInf)
              else Finite r)"

definition py_float_of_int :: "int \<Rightarrow> exn + pyfloat" where
  \<comment> \<open>\<open>float(n)\<close> for an \<open>int\<close>: OverflowError when \<open>n\<close> is too large for a float\<close>
  "py_float_of_int n =
     (case round64 (of_int n) of
        Finite r \<Rightarrow> Inr (Finite r)
      | _ \<Rightarrow> Inl OverflowError)"

fun py_fmul :: "pyfloat \<Rightarrow> pyfloat \<Rightarrow> pyfloat" where
  "py_fmul NaN _ = NaN"
| "py_fmul _ NaN = NaN"
| "py_fmul (Finite a) (Finite b) = round64 (a * b)"
| "py_fmul (Finite a) PosInf = (if a = 0 then NaN else if 0 < a then PosInf else NegInf)"
| "py_fmul (Finite a) NegInf = (if a = 0 then NaN else if 0 < a then NegInf else PosInf)"
| "py_fmul PosInf (Finite b) = (if b = 0 then NaN else if 0 < b then PosInf else NegInf)"
| "py_fmul NegInf (Finite b) = (if b = 0 then NaN else if 0 < b then NegInf else PosInf)"
| "py_fmul PosInf PosInf = PosInf"
| "py_fmul PosInf NegInf = NegInf"
| "py_fmul NegInf PosInf = NegInf"
| "py_fmul NegInf NegInf = PosInf"

definition py_fdiv1000 :: "pyfloat \<Rightarrow> pyfloat" where
  \<comment> \<open>\<open>x / 1000.0\<close>\<close>
  "py_fdiv1000 x =
     (case x of Finite a \<Rightarrow> round64 (a / 1000) | PosInf \<Rightarrow> PosInf
              | NegInf \<Rightarrow> NegInf | NaN \<Rightarrow> NaN)"

definition trunc_rat :: "rat \<Rightarrow> int" where
  \<comment> \<open>rounding toward zero\<close>
  "trunc_rat x = (if 0 \<le> x then \<lfloor>x\<rfloor> else \<lceil>x\<rceil>)"

definition py_int_of_float :: "pyfloat \<Rightarrow> exn + int" where
  \<comment> \<open>\<open>int(x)\<close> for a float\<close>
  "py_int_of_float x =
     (case x of Finite a \<Rightarrow> Inr (trunc_rat a)
              | NaN \<Rightarrow> Inl ValueError
              | _ \<Rightarrow> Inl OverflowError)"

text \<open>
  The values that travel from the sources to \<open>write_temperature\<close>: \<open>None\<close>, a float,
  or the pair \<open>(None, None)\<close> of the failure returns of \<open>read_temp\<close>.
\<close>

datatype pyval = PNone | PFloat pyfloat | PNonePair

definition int_of_times10 :: "pyval \<Rightarrow> exn + int" where
  \<comment> \<open>\<open>int(temperature * 10)\<close>: \<open>None * 10\<close> is a TypeError; a tuple times 10 is a
      longer tuple, which \<open>int\<close> refuses with a TypeError\<close>
  "int_of_times10 v =
     (case v of PFloat x \<Rightarrow> py_int_of_float (py_fmul x (Finite 10))
              | PNone \<Rightarrow> Inl TypeError
              | PNonePair \<Rightarrow> Inl TypeError)"

definition format_f :: "pyval \<Rightarrow> exn + unit" where
  \<comment> \<open>the format specs \<open>:.1f\<close> and \<open>:.2f\<close> of the f-strings: \<open>None\<close> and a tuple
      have no such format (TypeError)\<close>
  "format_f v = (case v of PFloat _ \<Rightarrow> Inr () | _ \<Rightarrow> Inl TypeError)"


section \<open>The Modbus writer (class \<open>ModbusRTUWriter\<close>, the same in both programs)\<close>

record serial_config =
  port :: string
  baudrate :: int
  parity :: char
  stopbits :: int
  bytesize :: int
  timeout :: int
  slave_address :: int

text \<open>
  The Modbus library and the serial line under it are not part of the repository: they are
  a parameter. The writer makes two kinds of request: building and configuring an
  \<open>Instrument\<close> (the body of the \<open>try\<close> in \<open>connect\<close>) and
  \<open>write_register(address, value, functioncode=...)\<close>. The transport answers a request,
  knowing everything that happened before, with \<open>None\<close> (it returned) or with the
  exception it raised. Every request and its answer is appended to a history.
\<close>

datatype request = Open serial_config | WriteRegister int int int

type_synonym event = "request \<times> exn option"

type_synonym transport = "event list \<Rightarrow> request \<Rightarrow> exn option"

record writer =
  config :: serial_config
  instrument :: "serial_config option"

type_synonym wstate = "writer \<times> event list"

definition connect :: "transport \<Rightarrow> wstate \<Rightarrow> wstate" where
  "connect tr s =
     (let (w, hist) = s; req = Open (config w)
      in case tr hist req of
           None \<Rightarrow> (w\<lparr>instrument := Some (config w)\<rparr>, hist @ [(req, None)])
         | Some e \<Rightarrow> (w\<lparr>instrument := None\<rparr>, hist @ [(req, Some e)]))"

definition writer_init :: "transport \<Rightarrow> serial_config \<Rightarrow> event list \<Rightarrow> wstate" where
  \<comment> \<open>\<open>__init__\<close>: stores the parameters, sets \<open>instrument = None\<close>, calls \<open>connect()\<close>\<close>
  "writer_init tr cfg hist = connect tr (\<lparr>config = cfg, instrument = None\<rparr>, hist)"

definition try_write :: "transport \<Rightarrow> event list \<Rightarrow> int \<Rightarrow> pyval \<Rightarrow> (exn + bool) \<times> event list" where
  \<comment> \<open>the body of the \<open>try\<close> in \<open>write_temperature\<close>\<close>
  "try_write tr hist register_address temperature =
     (case int_of_times10 temperature of
        Inl e \<Rightarrow> (Inl e, hist)
      | Inr temp_value \<Rightarrow>
          (let req = WriteRegister register_address temp_value 6
           in case tr hist req of
                Some e \<Rightarrow> (Inl e, hist @ [(req, Some e)])
              | None \<Rightarrow>
                  (case format_f temperature of
                     Inl e \<Rightarrow> (Inl e, hist @ [(req, None)])
                   | Inr _ \<Rightarrow> (Inr True, hist @ [(req, None)]))))"

definition write_temperature :: "transport \<Rightarrow> wstate \<Rightarrow> int \<Rightarrow> pyval \<Rightarrow> (exn + bool) \<times> wstate" where
  \<comment> \<open>\<open>except Exception\<close> catches every exception of the \<open>try\<close> body\<close>
  "write_temperature tr s register_address temperature =
     (let s1 = (if instrument (fst s) = None then connect tr s else s)
      in if instrument (fst s1) = None then (Inr False, s1)
         else case try_write tr (snd s1) register_address temperature of
                (Inr b, hist') \<Rightarrow> (Inr b, (fst s1, hist'))
              | (Inl e, hist') \<Rightarrow> (Inr False, ((fst s1)\<lparr>instrument := None\<rparr>, hist')))"

text \<open>Reading the history.\<close>

fun is_write :: "event \<Rightarrow> bool" where
  "is_write (WriteRegister _ _ _, _) = True"
| "is_write (Open _, _) = False"

fun is_open :: "event \<Rightarrow> bool" where
  "is_open (Open _, _) = True"
| "is_open (WriteRegister _ _ _, _) = False"

definition new_events :: "wstate \<Rightarrow> wstate \<Rightarrow> event list" where
  \<comment> \<open>what a call appended to the history\<close>
  "new_events s s' = drop (length (snd s)) (snd s')"

definition write_requests :: "event list \<Rightarrow> request list" where
  "write_requests evs = map fst (filter is_write evs)"

definition register_events :: "int \<Rightarrow> event list \<Rightarrow> event list" where
  \<comment> \<open>the calls of \<open>write_register\<close> for one register address, each with its outcome\<close>
  "register_events address evs =
     filter (\<lambda>ev. case fst ev of WriteRegister a v functioncode \<Rightarrow> a = address | Open c \<Rightarrow> False) evs"

definition transport_failed :: "event list \<Rightarrow> bool" where
  "transport_failed evs = list_ex (\<lambda>ev. snd ev \<noteq> None) evs"

definition write_accepted :: "event list \<Rightarrow> bool" where
  "write_accepted evs = list_ex (\<lambda>ev. is_write ev \<and> snd ev = None) evs"

definition starts_with_open :: "event list \<Rightarrow> bool" where
  "starts_with_open evs = (case evs of ev # _ \<Rightarrow> is_open ev | [] \<Rightarrow> False)"

definition connected :: "wstate \<Rightarrow> bool" where
  "connected s = (instrument (fst s) \<noteq> None)"

definition int16_range :: "int \<Rightarrow> bool" where
  "int16_range v = (- 32768 \<le> v \<and> v \<le> 32767)"

definition accept_all :: transport where
  \<comment> \<open>a transport on which every request succeeds\<close>
  "accept_all hist req = None"

definition example_config :: serial_config where
  \<comment> \<open>\<open>modbus_config\<close> of both \<open>main\<close> functions\<close>
  "example_config =
     \<lparr>port = ''/dev/ttyUSB0'', baudrate = 9600, parity = CHR ''E'', stopbits = 1,
      bytesize = 8, timeout = 2, slave_address = 1\<rparr>"


definition fail_second :: transport where
  \<comment> \<open>a transport whose second request fails and every other succeeds\<close>
  "fail_second hist req = (if length hist = 1 then Some SerialException else None)"

definition refuse_all :: transport where
  \<comment> \<open>a transport on which every request fails\<close>
  "refuse_all hist req = Some SerialException"

section \<open>Strings\<close>

text \<open>
  A string is the list of its code points, all below 256 (the 1-Wire text is ASCII).
  \<open>is_space\<close> is Python's \<open>str.isspace\<close> on that range: the characters that \<open>strip()\<close>
  removes at both ends. \<open>float()\<close> removes fewer: the separators U+001C to U+001F stay,
  and make it raise.
\<close>

definition is_space :: "char \<Rightarrow> bool" where
  "is_space c = (of_char c \<in> {9, 10, 11, 12, 13, 28, 29, 30, 31, 32, 133, 160 :: nat})"

definition strip :: "string \<Rightarrow> string" where
  "strip s = rev (dropWhile is_space (rev (dropWhile is_space s)))"

definition is_float_space :: "char \<Rightarrow> bool" where
  \<comment> \<open>the white space that \<open>float()\<close> skips at both ends of its argument\<close>
  "is_float_space c = (of_char c \<in> {9, 10, 11, 12, 13, 32, 133, 160 :: nat})"

definition float_strip :: "string \<Rightarrow> string" where
  "float_strip s = rev (dropWhile is_float_space (rev (dropWhile is_float_space s)))"

definition last3 :: "string \<Rightarrow> string" where
  \<comment> \<open>\<open>s[-3:]\<close>: the whole string when it is shorter than three\<close>
  "last3 s = drop (length s - 3) s"

fun py_find :: "string \<Rightarrow> string \<Rightarrow> nat option" where
  \<comment> \<open>\<open>s.find(pat)\<close>; \<open>None\<close> stands for \<open>-1\<close>\<close>
  "py_find pat [] = (if pat = [] then Some 0 else None)"
| "py_find pat (c # cs) =
     (if take (length pat) (c # cs) = pat then Some 0
      else map_option Suc (py_find pat cs))"

definition is_digit :: "char \<Rightarrow> bool" where
  "is_digit c = (48 \<le> (of_char c :: nat) \<and> (of_char c :: nat) \<le> 57)"

definition digit_val :: "char \<Rightarrow> int" where
  "digit_val c = int (of_char c) - 48"

definition dec_value :: "string \<Rightarrow> int" where
  "dec_value ds = foldl (\<lambda>a c. 10 * a + digit_val c) 0 ds"

definition to_lower :: "char \<Rightarrow> char" where
  "to_lower c =
     (if 65 \<le> (of_char c :: nat) \<and> (of_char c :: nat) \<le> 90
      then char_of (of_char c + 32 :: nat) else c)"

subsection \<open>\<open>float(s)\<close> for a string\<close>

text \<open>
  \<open>float(s)\<close> first checks the underscores of the whole argument (each stands between two
  digits) and drops them, then skips the white space at both ends, then reads an optional
  sign and either \<open>inf\<close>, \<open>infinity\<close>, \<open>nan\<close> (in any case) or a decimal number with
  an optional fraction and exponent, rounded to the nearest float. Anything left unread is
  a ValueError.
\<close>

fun underscores_ok :: "char option \<Rightarrow> string \<Rightarrow> bool" where
  \<comment> \<open>the first argument is the previous character\<close>
  "underscores_ok prev [] = (prev \<noteq> Some (CHR ''_''))"
| "underscores_ok prev (c # cs) =
     (if c = CHR ''_''
      then (case prev of Some p \<Rightarrow> is_digit p \<and> underscores_ok (Some c) cs | None \<Rightarrow> False)
      else (prev = Some (CHR ''_'') \<longrightarrow> is_digit c) \<and> underscores_ok (Some c) cs)"

definition split_sign :: "string \<Rightarrow> bool \<times> string" where
  \<comment> \<open>an optional sign; the flag says that it was a minus\<close>
  "split_sign s =
     (case s of
        c # cs \<Rightarrow> if c = CHR ''-'' then (True, cs) else if c = CHR ''+'' then (False, cs)
                  else (False, s)
      | [] \<Rightarrow> (False, s))"

definition split_digits :: "string \<Rightarrow> string \<times> string" where
  "split_digits s = (takeWhile is_digit s, dropWhile is_digit s)"

definition split_exponent :: "string \<Rightarrow> int \<times> string" where
  \<comment> \<open>\<open>e\<close> or \<open>E\<close>, an optional sign and at least one digit; anything else is left unread\<close>
  "split_exponent s =
     (case s of
        c # cs \<Rightarrow>
          if c = CHR ''e'' \<or> c = CHR ''E''
          then (let (neg, r) = split_sign cs; (ds, r') = split_digits r
                in if ds = [] then (0, s)
                   else ((if neg then - dec_value ds else dec_value ds), r'))
          else (0, s)
      | [] \<Rightarrow> (0, s))"

definition pow10 :: "int \<Rightarrow> rat" where
  "pow10 e = (if 0 \<le> e then 10 ^ nat e else 1 / 10 ^ nat (- e))"

definition py_float_of_string :: "string \<Rightarrow> exn + pyfloat" where
  "py_float_of_string s =
     (let t = float_strip (filter (\<lambda>c. c \<noteq> CHR ''_'') s);
          (neg, r) = split_sign t;
          word = map to_lower r
      in if \<not> underscores_ok None s then Inl ValueError
         else if word = ''inf'' \<or> word = ''infinity'' then Inr (if neg then NegInf else PosInf)
         else if word = ''nan'' then Inr NaN
         else
           (let (ip, r1) = split_digits r;
                (fp, r2) = (case r1 of
                              c # cs \<Rightarrow> if c = CHR ''.'' then split_digits cs else ([], r1)
                            | [] \<Rightarrow> ([], r1));
                (ex, r3) = split_exponent r2;
                m = of_int (dec_value (ip @ fp)) * pow10 (ex - int (length fp))
            in if (ip = [] \<and> fp = []) \<or> r3 \<noteq> [] then Inl ValueError
               else Inr (round64 (if neg then - m else m))))"

section \<open>The 1-Wire probes (class \<open>DS18B20\<close>)\<close>

text \<open>
  \<open>read_temp_raw\<close> reads a file of the kernel driver: it returns the lines of the file, or
  \<open>None\<close> when the file cannot be read. The successive results of \<open>read_temp_raw\<close> for
  one probe during one call of \<open>read_temp\<close> are a parameter, numbered from 0.
\<close>

type_synonym provider = "nat \<Rightarrow> string list option"

definition crc_ok :: "string \<Rightarrow> bool" where
  \<comment> \<open>\<open>line.strip()[-3:] == 'YES'\<close>\<close>
  "crc_ok line = (last3 (strip line) = ''YES'')"

definition backoff_ms :: nat where
  \<comment> \<open>\<open>time.sleep(0.2)\<close>: 200 milliseconds\<close>
  "backoff_ms = 200"

text \<open>
  The \<open>while\<close> loop of \<open>read_temp\<close>. \<open>slept\<close> lists the sleeps made so far, each with
  its length in milliseconds; the read that produced \<open>lines\<close> has the number
  \<open>length slept\<close>, and the next read comes after one more sleep. The loop ends with the
  validated lines, with \<open>None\<close> for the \<open>return None, None\<close> inside it, or with the
  IndexError of \<open>lines[0]\<close> on an empty list; it may also never end.
\<close>

partial_function (option) crc_loop ::
  "provider \<Rightarrow> nat list \<Rightarrow> string list \<Rightarrow> ((exn + string list option) \<times> nat list) option" where
  "crc_loop raw slept lines =
     (case lines of
        [] \<Rightarrow> Some (Inl IndexError, slept)
      | l0 # _ \<Rightarrow>
          if \<not> crc_ok l0
          then (case raw (Suc (length slept)) of
                  None \<Rightarrow> Some (Inr None, slept @ [backoff_ms])
                | Some lines' \<Rightarrow> crc_loop raw (slept @ [backoff_ms]) lines')
          else Some (Inr (Some lines), slept))"

declare crc_loop.simps [code]

definition parse_temp :: "string list \<Rightarrow> exn + pyval" where
  \<comment> \<open>the rest of \<open>read_temp\<close>, after the loop\<close>
  "parse_temp lines =
     (case lines of
        _ # l1 # _ \<Rightarrow>
          (case py_find ''t='' l1 of
             None \<Rightarrow> Inr PNonePair
           | Some equals_pos \<Rightarrow>
               (case py_float_of_string (drop (equals_pos + 2) l1) of
                  Inl e \<Rightarrow> Inl e
                | Inr x \<Rightarrow> Inr (PFloat (py_fdiv1000 x))))
      | _ \<Rightarrow> Inl IndexError)"

definition read_temp :: "provider \<Rightarrow> ((exn + pyval) \<times> nat list) option" where
  \<comment> \<open>the result or the exception, with the sleeps made; \<open>None\<close> when the call never returns\<close>
  "read_temp raw =
     (case raw 0 of
        None \<Rightarrow> Some (Inr PNonePair, [])
      | Some lines \<Rightarrow>
          if length lines < 2 then Some (Inr PNonePair, [])
          else (case crc_loop raw [] lines of
                  None \<Rightarrow> None
                | Some (Inl e, n) \<Rightarrow> Some (Inl e, n)
                | Some (Inr None, n) \<Rightarrow> Some (Inr PNonePair, n)
                | Some (Inr (Some lines'), n) \<Rightarrow> Some (parse_temp lines', n)))"

fun dict_set :: "'k \<Rightarrow> 'v \<Rightarrow> ('k \<times> 'v) list \<Rightarrow> ('k \<times> 'v) list" where
  \<comment> \<open>\<open>d[k] = v\<close> on a dict kept in insertion order\<close>
  "dict_set k v [] = [(k, v)]"
| "dict_set k v (p # ps) = (if fst p = k then (k, v) # ps else p # dict_set k v ps)"

text \<open>
  \<open>get_all_temperatures\<close>: \<open>sensors\<close> is what \<open>find_sensors()\<close> returned (the directory
  listing, a parameter), \<open>raw sensor_id\<close> the reads of that probe.
\<close>

fun collect_temperatures ::
  "(string \<Rightarrow> provider) \<Rightarrow> string list \<Rightarrow> (string \<times> pyval) list
     \<Rightarrow> (exn + (string \<times> pyval) list) option" where
  "collect_temperatures raw [] results = Some (Inr results)"
| "collect_temperatures raw (sensor_id # rest) results =
     (case read_temp (raw sensor_id) of
        None \<Rightarrow> None
      | Some (Inl e, _) \<Rightarrow> Some (Inl e)
      | Some (Inr temp_c, _) \<Rightarrow>
          collect_temperatures raw rest
            (if temp_c \<noteq> PNone then dict_set sensor_id temp_c results else results))"

definition get_all_temperatures ::
  "string list \<Rightarrow> (string \<Rightarrow> provider) \<Rightarrow> (exn + (string \<times> pyval) list) option" where
  "get_all_temperatures sensors raw = collect_temperatures raw sensors []"


section \<open>The sensor bridge (\<open>main\<close> of \<open>ds18b20_modbus.py\<close>)\<close>

definition sensor_registers :: "(nat \<times> int) list" where
  "sensor_registers = [(0, 4096), (1, 4097)]"

text \<open>
  The \<open>for\<close> loop over \<open>enumerate(temperatures.items())\<close>. Nothing in it catches an
  exception: the first one ends the loop and is handed on with the writer as it is then.
\<close>

fun write_all ::
  "transport \<Rightarrow> wstate \<Rightarrow> (nat \<times> string \<times> pyval) list \<Rightarrow> (exn + unit) \<times> wstate" where
  "write_all tr ws [] = (Inr (), ws)"
| "write_all tr ws ((i, sensor_id, temp_c) # rest) =
     (if i < length sensor_registers
      then (case map_of sensor_registers i of
              None \<Rightarrow> (Inl KeyError, ws)
            | Some register \<Rightarrow>
                (case write_temperature tr ws register temp_c of
                   (Inl e, ws') \<Rightarrow> (Inl e, ws')
                 | (Inr success, ws') \<Rightarrow>
                     (case format_f temp_c of
                        Inl e \<Rightarrow> (Inl e, ws')
                      | Inr _ \<Rightarrow> write_all tr ws' rest)))
      else (case format_f temp_c of
              Inl e \<Rightarrow> (Inl e, ws)
            | Inr _ \<Rightarrow> write_all tr ws rest))"

text \<open>
  What one tick finds on the bus: \<open>listing\<close> is the result of \<open>find_sensors()\<close>,
  \<open>files sensor_id\<close> the successive reads of that probe's file.
\<close>

record probes =
  listing :: "string list"
  files :: "string \<Rightarrow> provider"

definition sensor_tick :: "transport \<Rightarrow> probes \<Rightarrow> wstate \<Rightarrow> ((exn + unit) \<times> wstate) option" where
  \<comment> \<open>one pass of the body of \<open>while True\<close>; \<open>None\<close> when it never ends\<close>
  "sensor_tick tr env ws =
     (case get_all_temperatures (listing env) (files env) of
        None \<Rightarrow> None
      | Some (Inl e) \<Rightarrow> Some (Inl e, ws)
      | Some (Inr temperatures) \<Rightarrow>
          Some (write_all tr ws (zip [0 ..< length temperatures] temperatures)))"

text \<open>
  How a run of \<open>main\<close> ends. The \<open>try\<close> is around the whole \<open>while True\<close>, so an
  exception of a tick leaves the loop: \<open>except Exception\<close> logs it and \<open>main\<close> returns.
  The stop signal (Ctrl+C) is taken at a tick boundary: the run is given the number of
  ticks that pass before it.
\<close>

datatype ending =
    Interrupted wstate
  | Crashed exn nat wstate
  | No_sensors wstate

fun sensor_loop ::
  "transport \<Rightarrow> (nat \<Rightarrow> probes) \<Rightarrow> nat \<Rightarrow> nat \<Rightarrow> wstate \<Rightarrow> ending option" where
  \<comment> \<open>\<open>sensor_loop tr env n k ws\<close>: \<open>n\<close> ticks are left before the stop signal, \<open>k\<close> ticks are done\<close>
  "sensor_loop tr env 0 k ws = Some (Interrupted ws)"
| "sensor_loop tr env (Suc n) k ws =
     (case sensor_tick tr (env k) ws of
        None \<Rightarrow> None
      | Some (Inl e, ws') \<Rightarrow> Some (Crashed e k ws')
      | Some (Inr _, ws') \<Rightarrow> sensor_loop tr env n (Suc k) ws')"

definition sensor_main ::
  "transport \<Rightarrow> string list \<Rightarrow> (nat \<Rightarrow> probes) \<Rightarrow> nat \<Rightarrow> ending option" where
  \<comment> \<open>\<open>found\<close> is the result of the first \<open>find_sensors()\<close>, before the loop\<close>
  "sensor_main tr found env n =
     (let ws = writer_init tr example_config []
      in if found = [] then Some (No_sensors ws) else sensor_loop tr env n 0 ws)"

section \<open>The weather source (class \<open>WeatherFetcher\<close>) and its bridge\<close>

text \<open>
  The HTTP exchange is a parameter: \<open>requests.get\<close> raises (no reply), or returns a
  response with a status code and a body, which \<open>response.json()\<close> has parsed or refused.
  A JSON object is the list of its members in the order of the document; Python keeps the
  last value of a repeated key.
\<close>

datatype json =
    JNull | JBool bool | JInt int | JFloat pyfloat | JStr string
  | JArr "json list" | JObj "(string \<times> json) list"

datatype http_reply = No_reply | Reply int "json option"

definition getitem_str :: "json \<Rightarrow> string \<Rightarrow> exn + json" where
  \<comment> \<open>\<open>x[key]\<close> for a string key\<close>
  "getitem_str x key =
     (case x of
        JObj members \<Rightarrow>
          (case map_of (rev members) key of None \<Rightarrow> Inl KeyError | Some v \<Rightarrow> Inr v)
      | _ \<Rightarrow> Inl TypeError)"

definition getitem_0 :: "json \<Rightarrow> exn + json" where
  \<comment> \<open>\<open>x[0]\<close>; the keys of a JSON object are strings, so \<open>0\<close> is never among them\<close>
  "getitem_0 x =
     (case x of
        JArr xs \<Rightarrow> (case xs of [] \<Rightarrow> Inl IndexError | y # _ \<Rightarrow> Inr y)
      | JStr s \<Rightarrow> (case s of [] \<Rightarrow> Inl IndexError | c # _ \<Rightarrow> Inr (JStr [c]))
      | JObj _ \<Rightarrow> Inl KeyError
      | _ \<Rightarrow> Inl TypeError)"

definition py_float :: "json \<Rightarrow> exn + pyfloat" where
  \<comment> \<open>\<open>float(x)\<close>\<close>
  "py_float x =
     (case x of
        JStr s \<Rightarrow> py_float_of_string s
      | JInt n \<Rightarrow> py_float_of_int n
      | JFloat f \<Rightarrow> Inr f
      | JBool b \<Rightarrow> Inr (Finite (if b then 1 else 0))
      | _ \<Rightarrow> Inl TypeError)"

definition bind_exn :: "exn + 'a \<Rightarrow> ('a \<Rightarrow> exn + 'b) \<Rightarrow> exn + 'b" where
  "bind_exn r f = (case r of Inl e \<Rightarrow> Inl e | Inr v \<Rightarrow> f v)"

definition fetch_temperature :: "http_reply \<Rightarrow> exn + pyval" where
  \<comment> \<open>the body of the \<open>try\<close> in \<open>get_current_temperature\<close>; \<open>raise_for_status\<close> raises
      on the status codes 400 to 599\<close>
  "fetch_temperature reply =
     (case reply of
        No_reply \<Rightarrow> Inl RequestException
      | Reply status body \<Rightarrow>
          if 400 \<le> status \<and> status < 600 then Inl RequestException
          else (case body of
                  None \<Rightarrow> Inl ValueError
                | Some data \<Rightarrow>
                    bind_exn (getitem_str data ''current_condition'') (\<lambda>cc.
                    bind_exn (getitem_0 cc) (\<lambda>c0.
                    bind_exn (getitem_str c0 ''temp_C'') (\<lambda>t.
                    bind_exn (py_float t) (\<lambda>temperature.
                    Inr (PFloat temperature)))))))"

definition get_current_temperature :: "http_reply \<Rightarrow> exn + pyval" where
  \<comment> \<open>the two \<open>except\<close> clauses return \<open>None\<close>; any other exception goes to the caller\<close>
  "get_current_temperature reply =
     (case fetch_temperature reply of
        Inr temperature \<Rightarrow> Inr temperature
      | Inl e \<Rightarrow>
          if e = RequestException then Inr PNone
          else if e = KeyError \<or> e = ValueError \<or> e = TypeError then Inr PNone
          else Inl e)"

definition weather_register :: int where
  "weather_register = 4096"

definition weather_tick :: "transport \<Rightarrow> http_reply \<Rightarrow> wstate \<Rightarrow> (exn + unit) \<times> wstate" where
  "weather_tick tr reply ws =
     (case get_current_temperature reply of
        Inl e \<Rightarrow> (Inl e, ws)
      | Inr temperature \<Rightarrow>
          if temperature \<noteq> PNone
          then (case write_temperature tr ws weather_register temperature of
                  (Inl e, ws') \<Rightarrow> (Inl e, ws')
                | (Inr success, ws') \<Rightarrow>
                    (case format_f temperature of
                       Inl e \<Rightarrow> (Inl e, ws')
                     | Inr _ \<Rightarrow> (Inr (), ws')))
          else (Inr (), ws))"

fun weather_loop ::
  "transport \<Rightarrow> (nat \<Rightarrow> http_reply) \<Rightarrow> nat \<Rightarrow> nat \<Rightarrow> wstate \<Rightarrow> ending" where
  "weather_loop tr env 0 k ws = Interrupted ws"
| "weather_loop tr env (Suc n) k ws =
     (case weather_tick tr (env k) ws of
        (Inl e, ws') \<Rightarrow> Crashed e k ws'
      | (Inr _, ws') \<Rightarrow> weather_loop tr env n (Suc k) ws')"

definition weather_main :: "transport \<Rightarrow> (nat \<Rightarrow> http_reply) \<Rightarrow> nat \<Rightarrow> ending" where
  "weather_main tr env n = weather_loop tr env n 0 (writer_init tr example_config [])"


section \<open>What the specification says of a reading\<close>

text \<open>
  These definitions follow the words of the specification, not the code; the theorems
  compare the code with them.
\<close>

fun decimal_value :: "string \<Rightarrow> nat" where
  \<comment> \<open>the number that a string of decimal digits denotes, by the place of each digit\<close>
  "decimal_value [] = 0"
| "decimal_value (c # cs) = (of_char c - 48) * 10 ^ length cs + decimal_value cs"

definition celsius_within_precision :: "int \<Rightarrow> pyfloat \<Rightarrow> bool" where
  \<comment> \<open>\<open>v\<close> is \<open>m / 1000\<close> with no rounding beyond float precision: a relative error of at
      most \<open>2^-53\<close> (half a unit in the last place) for the division, and as much again for
      the conversion of \<open>m\<close> when \<open>m\<close> itself has more than 53 bits; an infinity only for
      an \<open>m\<close> beyond the range of floats\<close>
  "celsius_within_precision m v =
     (case v of
        Finite r \<Rightarrow>
          \<bar>r - of_int m / 1000\<bar> \<le>
            \<bar>of_int m / 1000\<bar> * (if \<bar>m\<bar> \<le> 2 ^ 53 then 1 / 2 ^ 53 else 1 / 2 ^ 52 + 1 / 2 ^ 106)
      | PosInf \<Rightarrow> 2 ^ 1023 \<le> m
      | NegInf \<Rightarrow> m \<le> - (2 ^ 1023)
      | NaN \<Rightarrow> False)"


section \<open>Fixtures\<close>

definition range_checked :: transport where
  \<comment> \<open>a healthy line under the Modbus library: \<open>write_register\<close> is called without
      \<open>signed=True\<close>, so the library packs the value as an unsigned 16-bit word and raises
      ValueError for a value outside 0 to 65535\<close>
  "range_checked hist req =
     (case req of
        Open _ \<Rightarrow> None
      | WriteRegister address v functioncode \<Rightarrow>
          if 0 \<le> v \<and> v \<le> 65535 then None else Some ValueError)"


definition dead_probe :: probes where
  \<comment> \<open>one probe in the directory listing, whose file cannot be read\<close>
  "dead_probe = \<lparr>listing = [''28-0000''], files = (\<lambda>sensor_id n. None)\<rparr>"

definition scenario_probes :: probes where
  \<comment> \<open>two probes whose files hold a valid frame of 21.562 and of -5.0 degrees\<close>
  "scenario_probes =
     \<lparr>listing = [''28-0001'', ''28-0002''],
      files = (\<lambda>sensor_id n.
        if sensor_id = ''28-0001''
        then Some [''59 01 4b 46 7f ff 0c 10 2f : crc=2f YES\<newline>'',
                   ''59 01 4b 46 7f ff 0c 10 2f t=21562\<newline>'']
        else Some [''b0 ff 4b 46 7f ff 0c 10 3c : crc=3c YES\<newline>'',
                   ''b0 ff 4b 46 7f ff 0c 10 3c t=-5000\<newline>''])\<rparr>"

definition empty_condition :: http_reply where
  \<comment> \<open>status 200 with the body \<open>{"current_condition": []}\<close>\<close>
  "empty_condition = Reply 200 (Some (JObj [(''current_condition'', JArr [])]))"


definition valid_frame :: provider where
  "valid_frame n = Some [''72 01 4b 46 7f ff 0e 10 57 : crc=57 YES\<newline>'',
                         ''72 01 4b 46 7f ff 0e 10 57 t=23125\<newline>'']"


definition init_state :: "transport \<Rightarrow> wstate" where
  \<comment> \<open>the writer as \<open>main\<close> constructs it, on a fresh history\<close>
  "init_state tr = writer_init tr example_config []"

definition failing_call :: "(exn + bool) \<times> wstate" where
  \<comment> \<open>the first write of 0.5 degrees on the transport whose second request fails\<close>
  "failing_call = write_temperature fail_second (init_state fail_second) 4096 (PFloat (Finite (1 / 2)))"

definition retry_call :: "(exn + bool) \<times> wstate" where
  "retry_call = write_temperature fail_second (snd failing_call) 4096 (PFloat (Finite (1 / 2)))"

definition third_call :: "(exn + bool) \<times> wstate" where
  "third_call = write_temperature fail_second (snd retry_call) 4096 (PFloat (Finite (1 / 2)))"

section \<open>Properties of the writer\<close>

lemma int_of_times10_format: "int_of_times10 t = Inr v \<Longrightarrow> format_f t = Inr ()"
  by (cases t) (simp_all add: int_of_times10_def format_f_def)

lemma write_temperature_connected:
  assumes "instrument w = Some c"
  shows "write_temperature tr (w, h) a t =
     (case int_of_times10 t of
        Inl e \<Rightarrow> (Inr False, (w\<lparr>instrument := None\<rparr>, h))
      | Inr v \<Rightarrow>
          (case tr h (WriteRegister a v 6) of
             Some e \<Rightarrow> (Inr False, (w\<lparr>instrument := None\<rparr>, h @ [(WriteRegister a v 6, Some e)]))
           | None \<Rightarrow> (Inr True, (w, h @ [(WriteRegister a v 6, None)]))))"
  using assms
  by (auto simp add: write_temperature_def try_write_def Let_def
      dest: int_of_times10_format split: sum.splits option.splits)

lemma write_temperature_disconnected:
  assumes "instrument w = None"
  shows "write_temperature tr (w, h) a t =
     (case tr h (Open (config w)) of
        Some e \<Rightarrow> (Inr False, (w\<lparr>instrument := None\<rparr>, h @ [(Open (config w), Some e)]))
      | None \<Rightarrow>
          (case int_of_times10 t of
             Inl e \<Rightarrow> (Inr False, (w\<lparr>instrument := None\<rparr>, h @ [(Open (config w), None)]))
           | Inr v \<Rightarrow>
              (case tr (h @ [(Open (config w), None)]) (WriteRegister a v 6) of
                 Some e \<Rightarrow> (Inr False, (w\<lparr>instrument := None\<rparr>,
                             h @ [(Open (config w), None), (WriteRegister a v 6, Some e)]))
               | None \<Rightarrow> (Inr True, (w\<lparr>instrument := Some (config w)\<rparr>,
                             h @ [(Open (config w), None), (WriteRegister a v 6, None)])))))"
  using assms
  by (auto simp add: write_temperature_def try_write_def Let_def connect_def
      dest: int_of_times10_format split: sum.splits option.splits)

lemmas wt_splits = sum.splits option.splits

lemma wt_failed:
  assumes "write_temperature tr s a t = (r, s1)" "transport_failed (new_events s s1)"
  shows "\<not> connected s1 \<and> r = Inr False
            \<and> length (filter is_write (new_events s s1)) \<le> 1
            \<and> length (filter is_open (new_events s s1)) \<le> 1"
proof (cases s)
  case (Pair w h)
  show ?thesis
  proof (cases "instrument w")
    case None
    with assms Pair show ?thesis
      by (auto simp add: write_temperature_disconnected new_events_def connected_def
          transport_failed_def split: wt_splits)
  next
    case (Some c)
    with assms Pair show ?thesis
      by (auto simp add: write_temperature_connected new_events_def connected_def
          transport_failed_def split: wt_splits)
  qed
qed

lemma wt_accepted:
  assumes "write_temperature tr s a t = (r, s1)" "write_accepted (new_events s s1)"
  shows "connected s1 \<and> r = Inr True"
proof (cases s)
  case (Pair w h)
  show ?thesis
  proof (cases "instrument w")
    case None
    with assms Pair show ?thesis
      by (auto simp add: write_temperature_disconnected new_events_def connected_def
          write_accepted_def split: wt_splits)
  next
    case (Some c)
    with assms Pair show ?thesis
      by (auto simp add: write_temperature_connected new_events_def connected_def
          write_accepted_def split: wt_splits)
  qed
qed

lemma wt_opens_first:
  assumes "write_temperature tr s a t = (r, s1)" "\<not> connected s"
  shows "starts_with_open (new_events s s1)"
proof (cases s)
  case (Pair w h)
  with assms show ?thesis
    by (auto simp add: write_temperature_disconnected new_events_def connected_def
        starts_with_open_def split: wt_splits)
qed

lemma wt_result:
  "fst (write_temperature tr s a t) =
     Inr (\<not> transport_failed (new_events s (snd (write_temperature tr s a t))) \<and>
          (case int_of_times10 t of Inr _ \<Rightarrow> True | Inl _ \<Rightarrow> False))"
proof (cases s)
  case (Pair w h)
  show ?thesis
  proof (cases "instrument w")
    case None
    with Pair show ?thesis
      by (auto simp add: write_temperature_disconnected new_events_def transport_failed_def
          split: wt_splits)
  next
    case (Some c)
    with Pair show ?thesis
      by (auto simp add: write_temperature_connected new_events_def transport_failed_def
          split: wt_splits)
  qed
qed

lemma wt_write_requests:
  "write_requests (new_events s (snd (write_temperature tr s a t))) =
     (if connected s \<or> tr (snd s) (Open (config (fst s))) = None
      then (case int_of_times10 t of Inr v \<Rightarrow> [WriteRegister a v 6] | Inl _ \<Rightarrow> [])
      else [])"
proof (cases s)
  case (Pair w h)
  show ?thesis
  proof (cases "instrument w")
    case None
    with Pair show ?thesis
      by (auto simp add: write_temperature_disconnected new_events_def connected_def
          write_requests_def split: wt_splits)
  next
    case (Some c)
    with Pair show ?thesis
      by (auto simp add: write_temperature_connected new_events_def connected_def
          write_requests_def split: wt_splits)
  qed
qed

lemma wt_opens:
  "list_ex is_open (new_events s (snd (write_temperature tr s a t))) = (\<not> connected s)"
proof (cases s)
  case (Pair w h)
  show ?thesis
  proof (cases "instrument w")
    case None
    with Pair show ?thesis
      by (auto simp add: write_temperature_disconnected new_events_def connected_def
          split: wt_splits)
  next
    case (Some c)
    with Pair show ?thesis
      by (auto simp add: write_temperature_connected new_events_def connected_def
          split: wt_splits)
  qed
qed

lemma wt_refused:
  assumes "\<not> connected s" "tr (snd s) (Open (config (fst s))) \<noteq> None"
  shows "fst (write_temperature tr s a t) = Inr False
        \<and> \<not> connected (snd (write_temperature tr s a t))
        \<and> list_all is_open (new_events s (snd (write_temperature tr s a t)))"
proof (cases s)
  case (Pair w h)
  with assms show ?thesis
    by (auto simp add: write_temperature_disconnected new_events_def connected_def
        split: wt_splits)
qed

lemma trunc_rat_int16: "int16_range (trunc_rat q) = (- 32769 < q \<and> q < 32768)"
proof (cases "0 \<le> q")
  case True
  then show ?thesis
    by (simp add: int16_range_def trunc_rat_def le_floor_iff)
next
  case False
  then show ?thesis
    by (auto simp add: int16_range_def trunc_rat_def ceiling_le_iff)
qed


section \<open>Evaluating the fixtures\<close>

lemma rat_floor_eval:
  "\<lfloor>numeral a / numeral b :: rat\<rfloor> = numeral a div numeral b"
  "\<lfloor>- (numeral a / numeral b) :: rat\<rfloor> = - numeral a div numeral b"
  "\<lceil>numeral a / numeral b :: rat\<rceil> = - (- numeral a div numeral b)"
  "\<lceil>- (numeral a / numeral b) :: rat\<rceil> = - (numeral a div numeral b)"
proof -
  show 1: "\<lfloor>numeral a / numeral b :: rat\<rfloor> = numeral a div numeral b"
    by (metis floor_divide_of_int_eq of_int_numeral)
  show 2: "\<lfloor>- (numeral a / numeral b) :: rat\<rfloor> = - numeral a div numeral b"
    by (metis floor_divide_of_int_eq of_int_numeral of_int_minus divide_minus_left)
  show "\<lceil>numeral a / numeral b :: rat\<rceil> = - (- numeral a div numeral b)"
    unfolding ceiling_def 2 ..
  show "\<lceil>- (numeral a / numeral b) :: rat\<rceil> = - (numeral a div numeral b)"
    unfolding ceiling_def minus_minus 1 ..
qed

lemmas float_eval = round64_def binade_def pow2_def round_half_even_def Let_def
  py_fdiv1000_def int_of_times10_def py_int_of_float_def trunc_rat_def bitlen.simps
  rat_floor_eval

lemma times10_5000: "int_of_times10 (PFloat (Finite 5000)) = Inr 50000"
  by (simp add: float_eval)

lemma times10_half: "int_of_times10 (PFloat (Finite (1 / 2))) = Inr 5"
  by (simp add: float_eval)

lemma init_accept_all:
  "init_state accept_all =
     (\<lparr>config = example_config, instrument = Some example_config\<rparr>, [(Open example_config, None)])"
  by (simp add: init_state_def writer_init_def connect_def accept_all_def)

lemma init_fail_second:
  "init_state fail_second =
     (\<lparr>config = example_config, instrument = Some example_config\<rparr>, [(Open example_config, None)])"
  by (simp add: init_state_def writer_init_def connect_def fail_second_def)

lemma init_refuse_all:
  "init_state refuse_all =
     (\<lparr>config = example_config, instrument = None\<rparr>,
      [(Open example_config, Some SerialException)])"
  by (simp add: init_state_def writer_init_def connect_def refuse_all_def)

lemma failing_call_eval:
  "failing_call =
     (Inr False, (\<lparr>config = example_config, instrument = None\<rparr>,
        [(Open example_config, None), (WriteRegister 4096 5 6, Some SerialException)]))"
  by (simp add: failing_call_def init_fail_second write_temperature_connected times10_half
      fail_second_def)

lemma retry_call_eval:
  "retry_call =
     (Inr True, (\<lparr>config = example_config, instrument = Some example_config\<rparr>,
        [(Open example_config, None), (WriteRegister 4096 5 6, Some SerialException),
         (Open example_config, None), (WriteRegister 4096 5 6, None)]))"
  by (simp add: retry_call_def failing_call_eval write_temperature_disconnected times10_half
      fail_second_def)

section \<open>The claims about the writer\<close>

text \<open>
  C1, as amended. For every float \<open>x\<close>, a call \<open>write_temperature(a, x)\<close> whose session is
  up, or can be brought up, issues exactly one \<open>write_register\<close> request, with function
  code 6 and the value \<open>int(x * 10)\<close> (the float product, rounded toward zero) whenever that
  product is finite, and none otherwise. The value is an unbounded integer: it lies in the
  signed 16-bit range exactly when the product lies strictly between -32769 and 32768.
\<close>

theorem write_temperature_value:
  "write_requests (new_events s (snd (write_temperature tr s a (PFloat x)))) =
     (if connected s \<or> tr (snd s) (Open (config (fst s))) = None
      then (case py_fmul x (Finite 10) of
              Finite p \<Rightarrow> [WriteRegister a (trunc_rat p) 6]
            | _ \<Rightarrow> [])
      else [])
   \<and> int16_range (trunc_rat q) = (- 32769 < q \<and> q < 32768)"
  by (simp add: wt_write_requests trunc_rat_int16 int_of_times10_def py_int_of_float_def
      split: pyfloat.splits)

theorem write_temperature_value_witness:
  "write_requests (new_events (init_state accept_all)
       (snd (write_temperature accept_all (init_state accept_all) 4096 (PFloat (Finite (1 / 2))))))
     = [WriteRegister 4096 5 6]
   \<and> int16_range (trunc_rat 5)"
proof -
  have c: "connected (init_state accept_all)"
    by (simp add: init_accept_all connected_def)
  have m: "py_fmul (Finite (1 / 2)) (Finite 10) = Finite 5"
    by (simp add: float_eval)
  have t: "trunc_rat 5 = 5"
    by (simp add: trunc_rat_def)
  from write_temperature_value
         [of "init_state accept_all" accept_all 4096 "Finite (1 / 2)" 5] c m t
  show ?thesis by simp
qed

text \<open>
  C1 as stated fails: for 5000.0 degrees the writer issues the value 50000, which is outside
  the signed 16-bit range.
\<close>

theorem write_temperature_int16_counterexample:
  "write_requests (new_events (init_state accept_all)
       (snd (write_temperature accept_all (init_state accept_all) 4096 (PFloat (Finite 5000)))))
     = [WriteRegister 4096 50000 6]
   \<and> \<not> int16_range 50000"
  by (simp add: init_accept_all write_temperature_connected times10_5000 accept_all_def
      new_events_def write_requests_def int16_range_def)

text \<open>
  C2. Take any two consecutive calls of \<open>write_temperature\<close>, from any state of the writer
  and on any transport. If a request of the first call failed on the transport, the writer
  is disconnected afterwards, the call returned \<open>False\<close> having made at most one connection
  attempt and at most one write (no retry), and the second call begins with a connection
  attempt. If the transport accepted the write of the first call, the writer is connected
  afterwards and the call returned \<open>True\<close>.
\<close>

theorem write_temperature_reconnect:
  assumes "write_temperature tr s a t = (r, s1)"
    and "write_temperature tr s1 a' t' = (r', s2)"
  shows "(transport_failed (new_events s s1) \<longrightarrow>
            \<not> connected s1 \<and> r = Inr False
            \<and> length (filter is_write (new_events s s1)) \<le> 1
            \<and> length (filter is_open (new_events s s1)) \<le> 1
            \<and> starts_with_open (new_events s1 s2))
       \<and> (write_accepted (new_events s s1) \<longrightarrow> connected s1 \<and> r = Inr True)"
  using wt_failed [OF assms(1)] wt_accepted [OF assms(1)] wt_opens_first [OF assms(2)]
  by blast

theorem write_temperature_reconnect_witness:
  "transport_failed (new_events (init_state fail_second) (snd failing_call))
   \<and> fst failing_call = Inr False
   \<and> \<not> connected (snd failing_call)
   \<and> starts_with_open (new_events (snd failing_call) (snd retry_call))
   \<and> write_accepted (new_events (snd failing_call) (snd retry_call))
   \<and> fst retry_call = Inr True
   \<and> connected (snd retry_call)"
proof -
  have f: "transport_failed (new_events (init_state fail_second) (snd failing_call))"
    by (simp add: failing_call_eval init_fail_second new_events_def transport_failed_def)
  have a: "write_accepted (new_events (snd failing_call) (snd retry_call))"
    by (simp add: failing_call_eval retry_call_eval new_events_def write_accepted_def)
  have 1: "write_temperature fail_second (init_state fail_second) 4096 (PFloat (Finite (1 / 2)))
             = (fst failing_call, snd failing_call)"
    by (simp add: failing_call_def)
  have 2: "write_temperature fail_second (snd failing_call) 4096 (PFloat (Finite (1 / 2)))
             = (fst retry_call, snd retry_call)"
    by (simp add: retry_call_def)
  have 3: "write_temperature fail_second (snd retry_call) 4096 (PFloat (Finite (1 / 2)))
             = (fst third_call, snd third_call)"
    by (simp add: third_call_def)
  from write_temperature_reconnect [OF 1 2] write_temperature_reconnect [OF 2 3] f a
  show ?thesis by blast
qed

text \<open>
  C9, as amended. The constructor itself makes one connection attempt with the serial
  configuration, so the writer starts connected when that attempt succeeds and disconnected
  when it fails. After construction, a call of \<open>write_temperature\<close> makes a connection
  attempt exactly when it finds the writer disconnected; if that attempt fails, the call
  returns \<open>False\<close>, issues no write, and the writer stays disconnected.
\<close>

theorem writer_connects_at_construction:
  "drop (length hist) (snd (writer_init tr cfg hist)) = [(Open cfg, tr hist (Open cfg))]
   \<and> connected (writer_init tr cfg hist) = (tr hist (Open cfg) = None)
   \<and> list_ex is_open (new_events s (snd (write_temperature tr s a t))) = (\<not> connected s)
   \<and> (\<not> connected s \<and> tr (snd s) (Open (config (fst s))) \<noteq> None \<longrightarrow>
        fst (write_temperature tr s a t) = Inr False
        \<and> \<not> connected (snd (write_temperature tr s a t))
        \<and> list_all is_open (new_events s (snd (write_temperature tr s a t))))"
proof (intro conjI)
  show "drop (length hist) (snd (writer_init tr cfg hist)) = [(Open cfg, tr hist (Open cfg))]"
    by (simp add: writer_init_def connect_def Let_def split: option.splits)
  show "connected (writer_init tr cfg hist) = (tr hist (Open cfg) = None)"
    by (simp add: writer_init_def connect_def connected_def Let_def split: option.splits)
  show "list_ex is_open (new_events s (snd (write_temperature tr s a t))) = (\<not> connected s)"
    by (rule wt_opens)
  show "\<not> connected s \<and> tr (snd s) (Open (config (fst s))) \<noteq> None \<longrightarrow>
        fst (write_temperature tr s a t) = Inr False
        \<and> \<not> connected (snd (write_temperature tr s a t))
        \<and> list_all is_open (new_events s (snd (write_temperature tr s a t)))"
    using wt_refused by blast
qed

theorem writer_connects_at_construction_witness:
  "\<not> connected (init_state refuse_all)
   \<and> fst (write_temperature refuse_all (init_state refuse_all) 4096 (PFloat (Finite 5000)))
       = Inr False
   \<and> \<not> connected (snd (write_temperature refuse_all (init_state refuse_all) 4096
                         (PFloat (Finite 5000))))"
proof -
  have d: "\<not> connected (init_state refuse_all)"
    by (simp add: init_refuse_all connected_def)
  have r: "refuse_all (snd (init_state refuse_all)) (Open (config (fst (init_state refuse_all))))
             \<noteq> None"
    by (simp add: refuse_all_def)
  from writer_connects_at_construction
         [of "[]" refuse_all example_config "init_state refuse_all" 4096 "PFloat (Finite 5000)"]
       d r
  show ?thesis by blast
qed

text \<open>
  C9 as stated fails: on a transport that accepts every request, the writer is connected as
  soon as it is constructed, and the connection attempt is already in the history.
\<close>

theorem writer_lazy_counterexample:
  "\<not> (\<not> connected (writer_init accept_all example_config [])
       \<and> snd (writer_init accept_all example_config []) = [])"
  by (simp add: writer_init_def connect_def accept_all_def connected_def)

text \<open>
  C10. For every register address, every value of \<open>temperature\<close> and every transport,
  \<open>write_temperature\<close> returns a boolean and raises nothing; the boolean is \<open>False\<close> as soon
  as a request failed on the transport (connection or write, whatever the exception) or the
  conversion \<open>int(temperature * 10)\<close> raised, and \<open>True\<close> otherwise.
\<close>

theorem write_temperature_never_raises:
  "fst (write_temperature tr s a t) =
     Inr (\<not> transport_failed (new_events s (snd (write_temperature tr s a t))) \<and>
          (case int_of_times10 t of Inr _ \<Rightarrow> True | Inl _ \<Rightarrow> False))"
  by (rule wt_result)

section \<open>The claims about the sources\<close>

text \<open>
  C3, at the failing input: one probe is discovered and its file cannot be read. The result
  of \<open>get_all_temperatures\<close> has an entry for it, holding the pair \<open>(None, None)\<close>.
\<close>

theorem get_all_temperatures_keeps_failed_probe:
  "get_all_temperatures (listing dead_probe) (files dead_probe)
     = Some (Inr [(''28-0000'', PNonePair)])"
  by (simp add: get_all_temperatures_def dead_probe_def read_temp_def)

text \<open>
  C4, at the failing input: the reply has status 200 and the body
  \<open>{"current_condition": []}\<close>. \<open>get_current_temperature\<close> raises IndexError.
\<close>

theorem get_current_temperature_raises:
  "get_current_temperature empty_condition = Inl IndexError"
  by (simp add: get_current_temperature_def fetch_temperature_def empty_condition_def
      getitem_str_def getitem_0_def bind_exn_def)

section \<open>Properties of the rounding to binary64\<close>

lemma pow2_powi: "pow2 e = 2 powi e"
  by (simp add: pow2_def power_int_def inverse_eq_divide power_one_over)

lemma pow2_pos [simp]: "0 < pow2 e"
  by (simp add: pow2_powi)

lemma pow2_add: "pow2 (a + b) = pow2 a * pow2 b"
  by (simp add: pow2_powi power_int_add)

lemma pow2_mono: "a \<le> b \<Longrightarrow> pow2 a \<le> pow2 b"
  by (simp add: pow2_powi power_int_increasing)

lemma pow2_less_imp: "pow2 a < pow2 b \<Longrightarrow> a < b"
  using pow2_mono [of b a] by (cases "a < b") auto

lemma pow2_nat: "0 \<le> e \<Longrightarrow> pow2 e = 2 ^ nat e"
  by (simp add: pow2_def)

lemma bitlen_bounds:
  "1 \<le> n \<Longrightarrow> 1 \<le> bitlen n \<and> 2 ^ nat (bitlen n - 1) \<le> n \<and> n < 2 ^ nat (bitlen n)"
proof (induction n rule: bitlen.induct)
  case (1 n)
  show ?case
  proof (cases "n = 1")
    case True
    then show ?thesis
      by (simp add: bitlen.simps [of 1] bitlen.simps [of 0])
  next
    case False
    with 1 have h: "1 \<le> n div 2" "\<not> n \<le> 0"
      by simp_all
    from 1 h have ih: "1 \<le> bitlen (n div 2)" "2 ^ nat (bitlen (n div 2) - 1) \<le> n div 2"
      "n div 2 < 2 ^ nat (bitlen (n div 2))"
      by simp_all
    have b: "bitlen n = 1 + bitlen (n div 2)"
      using h by (simp add: bitlen.simps [of n])
    have e: "nat (bitlen n - 1) = Suc (nat (bitlen (n div 2) - 1))" "nat (bitlen n) = Suc (nat (bitlen (n div 2)))"
      using ih(1) b by simp_all
    have "2 * 2 ^ nat (bitlen (n div 2) - 1) \<le> 2 * (n div 2)"
      using ih(2) by simp
    also have "\<dots> \<le> n" by simp
    finally have lo: "2 ^ nat (bitlen n - 1) \<le> n"
      by (simp add: e)
    have "n < 2 * (n div 2) + 2" by presburger
    also have "\<dots> \<le> 2 * 2 ^ nat (bitlen (n div 2))"
      using ih(3) by simp
    finally have hi: "n < 2 ^ nat (bitlen n)"
      by (simp add: e)
    from b ih(1) lo hi show ?thesis by simp
  qed
qed

lemma binade_bounds:
  assumes "0 < x"
  shows "pow2 (binade x) \<le> x \<and> x < pow2 (binade x + 1)"
proof (cases "1 \<le> x")
  case True
  define n where "n = \<lfloor>x\<rfloor>"
  have n1: "1 \<le> n"
    using True by (simp add: n_def le_floor_iff)
  note b = bitlen_bounds [OF n1]
  have bx: "binade x = bitlen n - 1"
    using True by (simp add: binade_def n_def)
  have "pow2 (bitlen n - 1) = 2 ^ nat (bitlen n - 1)"
    using b by (simp add: pow2_nat)
  also have "\<dots> = of_int (2 ^ nat (bitlen n - 1))"
    by simp
  also have "\<dots> \<le> of_int n"
    using b by (simp only: of_int_le_iff)
  also have "\<dots> \<le> x"
    by (simp add: n_def)
  finally have lo: "pow2 (binade x) \<le> x"
    by (simp add: bx)
  have "x < of_int (n + 1)"
    unfolding n_def by linarith
  also have "\<dots> \<le> of_int (2 ^ nat (bitlen n))"
    using b by (simp only: of_int_le_iff) simp
  also have "\<dots> = pow2 (bitlen n)"
    using b by (simp add: pow2_nat)
  finally have hi: "x < pow2 (binade x + 1)"
    by (simp add: bx)
  from lo hi show ?thesis ..
next
  case False
  define c where "c = \<lceil>1 / x\<rceil>"
  define k where "k = bitlen (c - 1)"
  from False assms have y: "1 < 1 / x"
    by simp
  then have c2: "1 \<le> c - 1"
    unfolding c_def by (simp add: less_ceiling_iff) 
  note b = bitlen_bounds [OF c2]
  have bx: "binade x = - k"
    using False by (simp add: binade_def c_def k_def)
  have k1: "1 \<le> k"
    using b by (simp add: k_def)
  have "1 / x \<le> of_int c"
    by (simp add: c_def)
  also have "\<dots> \<le> of_int (2 ^ nat k)"
    using b by (simp only: of_int_le_iff k_def) simp
  also have "\<dots> = 2 ^ nat k"
    by simp
  finally have "1 / x \<le> 2 ^ nat k" .
  then have "1 / 2 ^ nat k \<le> x"
    using assms by (simp add: field_simps)
  then have lo: "pow2 (binade x) \<le> x"
    using k1 by (simp add: bx pow2_def)
  have "(2::rat) ^ nat (k - 1) = of_int (2 ^ nat (k - 1))"
    by simp
  also have "\<dots> \<le> of_int (c - 1)"
    using b by (simp only: of_int_le_iff k_def)
  also have "\<dots> < 1 / x"
    unfolding c_def using ceiling_correct [of "1 / x"] by simp
  finally have "2 ^ nat (k - 1) < 1 / x" .
  then have "x < 1 / 2 ^ nat (k - 1)"
    using assms by (simp add: field_simps)
  also have "\<dots> = pow2 (- k + 1)"
    using k1 by (auto simp add: pow2_def)
  finally have hi: "x < pow2 (binade x + 1)"
    by (simp add: bx)
  from lo hi show ?thesis ..
qed

lemma round_half_even_error: "\<bar>of_int (round_half_even m) - m\<bar> \<le> 1 / 2"
proof -
  have "of_int \<lfloor>m\<rfloor> \<le> m" "m < of_int \<lfloor>m\<rfloor> + 1"
    by linarith+
  then show ?thesis
    by (auto simp add: round_half_even_def Let_def abs_le_iff)
qed

lemma round_half_even_int [simp]: "round_half_even (of_int k) = k"
  by (simp add: round_half_even_def)

lemma rounded_error:
  assumes "r = of_int (round_half_even (x / pow2 e)) * pow2 e"
  shows "\<bar>r - x\<bar> \<le> pow2 e / 2"
proof -
  let ?p = "pow2 e"
  let ?n = "of_int (round_half_even (x / ?p)) :: rat"
  have p: "0 < ?p" by simp
  have pn: "?p \<noteq> 0"
    using pow2_pos [of e] by linarith
  have "r - x = (?n - x / ?p) * ?p"
    using pn by (simp add: assms field_simps)
  then have "\<bar>r - x\<bar> = \<bar>?n - x / ?p\<bar> * ?p"
    by (simp add: abs_mult abs_of_pos)
  also have "\<dots> \<le> (1 / 2) * ?p"
  proof (rule mult_right_mono)
    show "\<bar>?n - x / ?p\<bar> \<le> 1 / 2"
      by (rule round_half_even_error)
    show "0 \<le> ?p"
      using pow2_pos [of e] by linarith
  qed
  finally show ?thesis by simp
qed

lemma round64_nonzero:
  assumes "x \<noteq> 0"
  shows "round64 x =
     (let e = max (binade \<bar>x\<bar> - 52) (- 1074);
          r = of_int (round_half_even (x / pow2 e)) * pow2 e
      in if 2 ^ 1024 \<le> \<bar>r\<bar> then (if 0 < x then PosInf else NegInf) else Finite r)"
  using assms by (simp add: round64_def)

lemma round64_Finite_bound: "round64 x = Finite r \<Longrightarrow> \<bar>r\<bar> < 2 ^ 1024"
  by (cases "x = 0") (auto simp add: round64_def Let_def split: if_splits)

lemma round64_not_NaN: "round64 x \<noteq> NaN"
  by (simp add: round64_def Let_def)

lemma round64_error:
  assumes "round64 x = Finite r" "pow2 (- 1022) \<le> \<bar>x\<bar>"
  shows "\<bar>r - x\<bar> \<le> \<bar>x\<bar> / 2 ^ 53"
proof -
  have x0: "0 < \<bar>x\<bar>"
    using assms(2) pow2_pos [of "- 1022"] by linarith
  then have nz: "x \<noteq> 0" by simp
  define b where "b = binade \<bar>x\<bar>"
  from binade_bounds [OF x0] have lo: "pow2 b \<le> \<bar>x\<bar>" and hi: "\<bar>x\<bar> < pow2 (b + 1)"
    by (simp_all add: b_def)
  from assms(2) hi have "pow2 (- 1022) < pow2 (b + 1)"
    by linarith
  then have "- 1022 < b + 1"
    by (rule pow2_less_imp)
  then have e: "max (b - 52) (- 1074) = b - 52"
    by simp
  from assms(1) have r: "r = of_int (round_half_even (x / pow2 (b - 52))) * pow2 (b - 52)"
    by (simp add: round64_nonzero [OF nz] Let_def b_def [symmetric] e split: if_splits)
  have "pow2 (b - 52) = pow2 (b + (- 52))" by simp
  also have "\<dots> = pow2 b * pow2 (- 52)" by (rule pow2_add)
  finally have "pow2 (b - 52) / 2 = pow2 b / 2 ^ 53"
    by (simp add: pow2_def)
  with rounded_error [OF r] have "\<bar>r - x\<bar> \<le> pow2 b / 2 ^ 53"
    by simp
  also have "\<dots> \<le> \<bar>x\<bar> / 2 ^ 53"
    using lo by (simp add: divide_right_mono)
  finally show ?thesis .
qed

lemma round64_finite:
  assumes "\<bar>x\<bar> < 2 ^ 1023"
  shows "\<exists>r. round64 x = Finite r"
proof (cases "x = 0")
  case True
  then show ?thesis by (simp add: round64_def)
next
  case False
  then have x0: "0 < \<bar>x\<bar>" by simp
  define b where "b = binade \<bar>x\<bar>"
  define e where "e = max (b - 52) (- 1074)"
  define r where "r = of_int (round_half_even (x / pow2 e)) * pow2 e"
  from binade_bounds [OF x0] have lo: "pow2 b \<le> \<bar>x\<bar>"
    by (simp add: b_def)
  have "pow2 1023 = 2 ^ 1023"
    by (simp add: pow2_def)
  with lo assms have "pow2 b < pow2 1023"
    by linarith
  then have "b < 1023"
    by (rule pow2_less_imp)
  then have "e \<le> 970"
    by (simp add: e_def)
  then have "pow2 e \<le> pow2 970"
    by (rule pow2_mono)
  also have "\<dots> = 2 ^ 970"
    by (simp add: pow2_def)
  finally have pe: "pow2 e \<le> 2 ^ 970" .
  have "\<bar>r\<bar> \<le> \<bar>x\<bar> + \<bar>r - x\<bar>"
    by linarith
  also have "\<dots> \<le> \<bar>x\<bar> + pow2 e / 2"
    using rounded_error [OF r_def] by simp
  also have "\<dots> < 2 ^ 1023 + 2 ^ 970"
    using assms pe pow2_pos [of e] by linarith
  also have "\<dots> \<le> (2 ^ 1024 :: rat)"
    by simp
  finally have "\<bar>r\<bar> < 2 ^ 1024" .
  then show ?thesis
    by (simp add: round64_nonzero [OF False] Let_def b_def [symmetric] e_def [symmetric]
        r_def [symmetric])
qed

lemma round64_PosInf: "round64 x = PosInf \<Longrightarrow> 2 ^ 1023 \<le> x"
proof (rule ccontr)
  assume inf: "round64 x = PosInf" and "\<not> 2 ^ 1023 \<le> x"
  then have "x < 2 ^ 1023" by simp
  moreover from inf have "0 < x"
    by (cases "x = 0") (auto simp add: round64_def Let_def split: if_splits)
  ultimately have "\<bar>x\<bar> < 2 ^ 1023" by simp
  from round64_finite [OF this] inf show False by auto
qed

lemma round64_NegInf: "round64 x = NegInf \<Longrightarrow> x \<le> - (2 ^ 1023)"
proof (rule ccontr)
  assume inf: "round64 x = NegInf" and "\<not> x \<le> - (2 ^ 1023)"
  then have "- (2 ^ 1023) < x" by simp
  moreover from inf have "x < 0"
    by (cases "x = 0") (auto simp add: round64_def Let_def split: if_splits)
  ultimately have "\<bar>x\<bar> < 2 ^ 1023" by simp
  from round64_finite [OF this] inf show False by auto
qed

lemma pow2_strict_mono: "a < b \<Longrightarrow> pow2 a < pow2 b"
  by (simp add: pow2_powi power_int_strict_increasing)

lemma round64_exact:
  assumes "x \<noteq> 0" "x / pow2 (max (binade \<bar>x\<bar> - 52) (- 1074)) = of_int k" "\<bar>x\<bar> < 2 ^ 1024"
  shows "round64 x = Finite x"
proof -
  let ?e = "max (binade \<bar>x\<bar> - 52) (- 1074)"
  have pn: "pow2 ?e \<noteq> 0"
    using pow2_pos [of ?e] by linarith
  have "of_int (round_half_even (x / pow2 ?e)) * pow2 ?e = x / pow2 ?e * pow2 ?e"
    by (simp only: assms(2) round_half_even_int)
  also have "\<dots> = x"
    using pn by simp
  finally show ?thesis
    using assms(1,3) by (simp add: round64_nonzero Let_def)
qed

lemma round64_int_exact:
  assumes "\<bar>m\<bar> \<le> 2 ^ 53"
  shows "round64 (of_int m) = Finite (of_int m)"
proof (cases "m = 0")
  case True
  then show ?thesis by (simp add: round64_def)
next
  case False
  let ?x = "of_int m :: rat"
  define b where "b = binade \<bar>?x\<bar>"
  have x1: "1 \<le> \<bar>?x\<bar>"
    using False by (simp flip: of_int_abs)
  then have x0: "0 < \<bar>?x\<bar>" by linarith
  have "b = bitlen \<lfloor>\<bar>?x\<bar>\<rfloor> - 1"
    using x1 by (simp add: b_def binade_def)
  moreover have "\<lfloor>\<bar>?x\<bar>\<rfloor> = \<bar>m\<bar>"
    by (simp flip: of_int_abs)
  moreover have "1 \<le> \<bar>m\<bar>"
    using False by simp
  ultimately have b0: "0 \<le> b"
    using bitlen_bounds [of "\<bar>m\<bar>"] by simp
  from binade_bounds [OF x0] have lo: "pow2 b \<le> \<bar>?x\<bar>"
    by (simp add: b_def)
  have xm: "\<bar>?x\<bar> \<le> 2 ^ 53"
    using assms by (simp flip: of_int_abs add: of_int_le_numeral_power_cancel_iff)
  have e: "max (b - 52) (- 1074) = b - 52"
    using b0 by simp
  have "\<exists>k. ?x / pow2 (b - 52) = of_int k"
  proof (cases "b \<le> 52")
    case True
    then have "pow2 (b - 52) = 1 / 2 ^ nat (52 - b)"
      by (auto simp add: pow2_def)
    then have "?x / pow2 (b - 52) = of_int (m * 2 ^ nat (52 - b))"
      by simp
    then show ?thesis ..
  next
    case False
    then have "53 \<le> b" by simp
    then have "pow2 53 \<le> pow2 b"
      by (rule pow2_mono)
    with lo xm have "\<bar>?x\<bar> = 2 ^ 53" "pow2 b = 2 ^ 53"
      by (simp_all add: pow2_def)
    then have "pow2 b = pow2 53"
      by (simp add: pow2_def)
    with \<open>53 \<le> b\<close> have "b = 53"
      using pow2_strict_mono [of 53 b] by (cases "53 < b") auto
    from \<open>\<bar>?x\<bar> = 2 ^ 53\<close> have "\<bar>m\<bar> = 2 ^ 53"
      by (simp flip: of_int_abs add: of_int_eq_numeral_power_cancel_iff)
    then have "m = 2 ^ 53 \<or> m = - (2 ^ 53)"
      by (simp add: abs_eq_iff')
    then have "m = 2 * (m div 2)"
      by auto
    then have "?x = 2 * of_int (m div 2)"
      by (metis of_int_mult of_int_numeral)
    then have "?x / pow2 (b - 52) = of_int (m div 2)"
      using \<open>b = 53\<close> by (simp add: pow2_def)
    then show ?thesis ..
  qed
  then obtain k where k: "?x / pow2 (max (binade \<bar>?x\<bar> - 52) (- 1074)) = of_int k"
    by (auto simp add: b_def [symmetric] e)
  have "\<bar>?x\<bar> < 2 ^ 1024"
    using xm by (rule le_less_trans) simp
  with False k show ?thesis
    by (intro round64_exact) simp_all
qed

lemma div1000_error:
  assumes "round64 x = Finite f" "1 \<le> \<bar>x\<bar>"
  shows "\<exists>r. py_fdiv1000 (Finite f) = Finite r \<and> \<bar>r - f / 1000\<bar> \<le> \<bar>f / 1000\<bar> / 2 ^ 53
             \<and> \<bar>f - x\<bar> \<le> \<bar>x\<bar> / 2 ^ 53"
proof -
  have small: "pow2 (- 1022) \<le> 1 / 2000"
    by (simp add: pow2_def)
  have ef: "\<bar>f - x\<bar> \<le> \<bar>x\<bar> / 2 ^ 53"
    using assms(1)
  proof (rule round64_error)
    show "pow2 (- 1022) \<le> \<bar>x\<bar>"
      using small assms(2) by linarith
  qed
  have fb: "\<bar>f\<bar> < 2 ^ 1024"
    using assms(1) by (rule round64_Finite_bound)
  then have "\<bar>f / 1000\<bar> < 2 ^ 1023"
    by simp
  then obtain r where r: "round64 (f / 1000) = Finite r"
    using round64_finite by blast
  have "\<bar>x\<bar> / 2 ^ 53 \<le> \<bar>x\<bar> / 2"
    by (intro divide_left_mono) simp_all
  with ef assms(2) have "1 / 2 \<le> \<bar>f\<bar>"
    by linarith
  then have "pow2 (- 1022) \<le> \<bar>f / 1000\<bar>"
    using small by simp
  with r have "\<bar>r - f / 1000\<bar> \<le> \<bar>f / 1000\<bar> / 2 ^ 53"
    by (rule round64_error)
  with r ef show ?thesis
    by (simp add: py_fdiv1000_def)
qed

lemma celsius_precision: "celsius_within_precision m (py_fdiv1000 (round64 (of_int m)))"
proof (cases "m = 0")
  case True
  then show ?thesis
    by (simp add: round64_def py_fdiv1000_def celsius_within_precision_def)
next
  case False
  let ?x = "of_int m :: rat"
  have x1: "1 \<le> \<bar>?x\<bar>"
    using False by (simp flip: of_int_abs)
  show ?thesis
  proof (cases "round64 ?x")
    case (Finite f)
    from div1000_error [OF Finite x1] obtain r where r: "py_fdiv1000 (Finite f) = Finite r"
      and er: "\<bar>r - f / 1000\<bar> \<le> \<bar>f / 1000\<bar> / 2 ^ 53"
      and ef: "\<bar>f - ?x\<bar> \<le> \<bar>?x\<bar> / 2 ^ 53"
      by blast
    show ?thesis
    proof (cases "\<bar>m\<bar> \<le> 2 ^ 53")
      case True
      then have "f = ?x"
        using Finite round64_int_exact [of m] by simp
      with er r True show ?thesis
        by (simp add: Finite celsius_within_precision_def)
    next
      case big: False
      have 1: "\<bar>r - ?x / 1000\<bar> \<le> \<bar>r - f / 1000\<bar> + \<bar>f - ?x\<bar> / 1000"
        by (simp add: abs_le_iff field_simps) linarith
      have 2: "\<bar>f\<bar> \<le> \<bar>?x\<bar> + \<bar>?x\<bar> / 2 ^ 53"
        using ef by linarith
      have "\<bar>f / 1000\<bar> / 2 ^ 53 \<le> (\<bar>?x\<bar> + \<bar>?x\<bar> / 2 ^ 53) / 1000 / 2 ^ 53"
        using 2 by (simp add: divide_right_mono)
      with er have 3: "\<bar>r - f / 1000\<bar> \<le> (\<bar>?x\<bar> + \<bar>?x\<bar> / 2 ^ 53) / 1000 / 2 ^ 53"
        by linarith
      have 4: "\<bar>f - ?x\<bar> / 1000 \<le> \<bar>?x\<bar> / 2 ^ 53 / 1000"
        using ef by (simp add: divide_right_mono)
      have "\<bar>r - ?x / 1000\<bar> \<le> (\<bar>?x\<bar> + \<bar>?x\<bar> / 2 ^ 53) / 1000 / 2 ^ 53 + \<bar>?x\<bar> / 2 ^ 53 / 1000"
        using 1 3 4 by linarith
      also have "\<dots> = \<bar>?x / 1000\<bar> * (1 / 2 ^ 52 + 1 / 2 ^ 106)"
        by (simp add: field_simps)
      finally show ?thesis
        using big r by (simp add: Finite celsius_within_precision_def)
    qed
  next
    case PosInf
    then have "2 ^ 1023 \<le> ?x"
      by (rule round64_PosInf)
    then have "2 ^ 1023 \<le> m"
      by (simp add: numeral_power_le_of_int_cancel_iff)
    with PosInf show ?thesis
      by (simp add: py_fdiv1000_def celsius_within_precision_def)
  next
    case NegInf
    then have "?x \<le> - (2 ^ 1023)"
      by (rule round64_NegInf)
    then have "m \<le> - (2 ^ 1023)"
      by (metis of_int_le_iff of_int_minus of_int_numeral of_int_power)
    with NegInf show ?thesis
      by (simp add: py_fdiv1000_def celsius_within_precision_def)
  next
    case NaN
    then show ?thesis
      using round64_not_NaN by blast
  qed
qed

section \<open>Properties of the string functions\<close>

lemma digit_not_space: "is_digit c \<Longrightarrow> \<not> is_float_space c"
  by (auto simp add: is_digit_def is_float_space_def)

lemma dropWhile_hd: "xs \<noteq> [] \<Longrightarrow> \<not> P (hd xs) \<Longrightarrow> dropWhile P xs = xs"
  by (cases xs) simp_all

lemma strip_core:
  assumes "s \<noteq> []" "\<not> is_float_space (hd s)" "\<not> is_float_space (last s)"
    and "\<forall>c\<in>set ws. is_float_space c"
  shows "float_strip (s @ ws) = s"
proof -
  have 1: "dropWhile is_float_space (s @ ws) = s @ ws"
    by (rule dropWhile_hd) (use assms(1,2) in simp_all)
  have 2: "rev (s @ ws) = rev ws @ rev s"
    by simp
  have 3: "dropWhile is_float_space (rev ws @ rev s) = dropWhile is_float_space (rev s)"
    by (rule dropWhile_append2) (use assms(4) in simp)
  have 4: "dropWhile is_float_space (rev s) = rev s"
    by (rule dropWhile_hd) (use assms(1,3) in \<open>simp_all add: hd_rev\<close>)
  show ?thesis
    by (simp only: float_strip_def 1 2 3 4 rev_rev_ident)
qed

lemma marker_not_space: "\<not> is_space CHR ''Y''" "\<not> is_space CHR ''S''"
  by (simp_all add: is_space_def)

lemma dropWhile_marker:
  "dropWhile is_space (pre @ ''YES'' @ ws) = dropWhile is_space pre @ ''YES'' @ ws"
  by (induction pre) (simp_all add: marker_not_space)

lemma strip_marker:
  assumes "\<forall>c\<in>set ws. is_space c"
  shows "strip (pre @ ''YES'' @ ws) = dropWhile is_space pre @ ''YES''"
proof -
  let ?p = "dropWhile is_space pre"
  have 2: "rev (?p @ ''YES'' @ ws) = rev ws @ (''SEY'' @ rev ?p)"
    by simp
  have 3: "dropWhile is_space (rev ws @ (''SEY'' @ rev ?p)) = dropWhile is_space (''SEY'' @ rev ?p)"
    by (rule dropWhile_append2) (use assms in simp)
  have 4: "dropWhile is_space (''SEY'' @ rev ?p) = ''SEY'' @ rev ?p"
    by (simp add: marker_not_space)
  have 5: "rev (''SEY'' @ rev ?p) = ?p @ ''YES''"
    by simp
  show ?thesis
    by (simp only: strip_def dropWhile_marker 2 3 4 5)
qed

lemma crc_ok_marker: "\<forall>c\<in>set ws. is_space c \<Longrightarrow> crc_ok (pre @ ''YES'' @ ws)"
  using strip_marker [of ws pre] by (simp add: crc_ok_def last3_def)

lemma py_find_first:
  "py_find ''t='' pre = None \<Longrightarrow> py_find ''t='' (pre @ ''t='' @ rest) = Some (length pre)"
proof (induction pre)
  case Nil
  show ?case by simp
next
  case (Cons c pre)
  then show ?case
    by (cases pre) (auto split: if_splits)
qed

lemma underscores_ok_plain:
  "CHR ''_'' \<notin> set s \<Longrightarrow> prev \<noteq> Some (CHR ''_'') \<Longrightarrow> underscores_ok prev s"
  by (induction s arbitrary: prev) auto

lemma split_digits_all: "\<forall>c\<in>set ds. is_digit c \<Longrightarrow> split_digits ds = (ds, [])"
  by (simp add: split_digits_def)

lemma digits_not_word:
  assumes "ds \<noteq> []" "\<forall>c\<in>set ds. is_digit c"
  shows "map to_lower ds \<noteq> ''inf''" "map to_lower ds \<noteq> ''infinity''" "map to_lower ds \<noteq> ''nan''"
  using assms by (cases ds; auto simp add: is_digit_def to_lower_def)+

lemma split_sign_cases:
  assumes "ds \<noteq> []" "\<forall>c\<in>set ds. is_digit c"
  shows "split_sign ds = (False, ds)"
    and "split_sign (''-'' @ ds) = (True, ds)"
    and "split_sign (''+'' @ ds) = (False, ds)"
  using assms by (cases ds; auto simp add: split_sign_def is_digit_def)+

lemma float_of_digits:
  assumes "ds \<noteq> []" "\<forall>c\<in>set ds. is_digit c"
    and "split_sign (sg @ ds) = (neg, ds)" "CHR ''_'' \<notin> set sg" "CHR ''_'' \<notin> set ws"
    and "float_strip (sg @ ds @ ws) = sg @ ds"
  shows "py_float_of_string (sg @ ds @ ws) =
           Inr (round64 (of_int (if neg then - dec_value ds else dec_value ds)))"
proof -
  from assms(2) have "CHR ''_'' \<notin> set ds"
    by (auto simp add: is_digit_def)
  with assms(4,5) have u: "CHR ''_'' \<notin> set (sg @ ds @ ws)"
    by simp
  then have f: "filter (\<lambda>c. c \<noteq> CHR ''_'') (sg @ ds @ ws) = sg @ ds @ ws"
    by (intro filter_True) auto
  from u have ok: "underscores_ok None (sg @ ds @ ws)"
    by (rule underscores_ok_plain) simp
  show ?thesis
    unfolding py_float_of_string_def Let_def f assms(6) assms(3)
    using digits_not_word [OF assms(1,2)] ok assms(1)
    by (simp add: split_digits_all [OF assms(2)] split_exponent_def pow10_def)
qed

lemma float_of_int_literal:
  assumes "ds \<noteq> []" "\<forall>c\<in>set ds. is_digit c" "\<forall>c\<in>set ws. is_float_space c"
    and "sg = [] \<or> sg = ''-'' \<or> sg = ''+''"
  shows "py_float_of_string (sg @ ds @ ws) =
           Inr (round64 (of_int (if sg = ''-'' then - dec_value ds else dec_value ds)))"
proof -
  from assms(1,2) have hd: "\<not> is_float_space (hd ds)" and la: "\<not> is_float_space (last ds)"
    by (simp_all add: digit_not_space)
  have st: "float_strip ((sg @ ds) @ ws) = sg @ ds"
  proof (rule strip_core)
    show "sg @ ds \<noteq> []" using assms(1) by simp
    show "\<not> is_float_space (hd (sg @ ds))"
      using assms(4) hd by (auto simp add: is_float_space_def)
    show "\<not> is_float_space (last (sg @ ds))"
      using assms(1) la by simp
    show "\<forall>c\<in>set ws. is_float_space c" by (rule assms(3))
  qed
  have us: "CHR ''_'' \<notin> set sg"
    using assms(4) by auto
  have uw: "CHR ''_'' \<notin> set ws"
    using assms(3) by (auto simp add: is_float_space_def)
  from assms(4) show ?thesis
  proof (elim disjE)
    assume "sg = []"
    with float_of_digits [OF assms(1,2) _ us uw, of False] st split_sign_cases(1) [OF assms(1,2)]
    show ?thesis by simp
  next
    assume "sg = ''-''"
    with float_of_digits [OF assms(1,2) _ us uw, of True] st split_sign_cases(2) [OF assms(1,2)]
    show ?thesis by simp
  next
    assume "sg = ''+''"
    with float_of_digits [OF assms(1,2) _ us uw, of False] st split_sign_cases(3) [OF assms(1,2)]
    show ?thesis by simp
  qed
qed

lemma foldl_decimal:
  assumes "\<forall>c\<in>set ds. is_digit c"
  shows "foldl (\<lambda>a c. 10 * a + digit_val c) a ds = a * 10 ^ length ds + int (decimal_value ds)"
  using assms
proof (induction ds arbitrary: a)
  case Nil
  show ?case by simp
next
  case (Cons c ds)
  define D where "D = int (of_char c - 48)"
  define V where "V = int (decimal_value ds)"
  from Cons.prems have d: "digit_val c = D"
    by (simp add: digit_val_def is_digit_def D_def)
  have v: "int (decimal_value (c # ds)) = D * 10 ^ length ds + V"
    by (simp add: D_def V_def)
  have "foldl (\<lambda>a c. 10 * a + digit_val c) a (c # ds) = (10 * a + D) * 10 ^ length ds + V"
    using Cons.IH [of "10 * a + digit_val c"] Cons.prems by (simp add: d V_def)
  also have "\<dots> = a * 10 ^ length (c # ds) + (D * 10 ^ length ds + V)"
    by (simp add: algebra_simps)
  finally show ?case
    by (simp only: v)
qed

lemma dec_value_decimal:
  "\<forall>c\<in>set ds. is_digit c \<Longrightarrow> dec_value ds = int (decimal_value ds)"
  by (simp add: dec_value_def foldl_decimal)

section \<open>Properties of the retry loop\<close>

lemma crc_loop_valid:
  "crc_ok l0 \<Longrightarrow> crc_loop raw slept (l0 # ls) = Some (Inr (Some (l0 # ls)), slept)"
  by (subst crc_loop.simps) simp


lemma crc_loop_empty: "crc_loop raw slept [] = Some (Inl IndexError, slept)"
  by (subst crc_loop.simps) simp




section \<open>Reading a valid frame\<close>

lemma read_temp_valid:
  assumes "raw 0 = Some (l0 # l1 # rest)"
    and "l0 = pre0 @ ''YES'' @ ws0" "\<forall>c\<in>set ws0. is_space c"
    and "l1 = pre1 @ ''t='' @ sg @ ds @ ws1" "py_find ''t='' pre1 = None"
    and "sg = [] \<or> sg = ''-'' \<or> sg = ''+''"
    and "ds \<noteq> []" "\<forall>c\<in>set ds. is_digit c" "\<forall>c\<in>set ws1. is_float_space c"
  shows "read_temp raw =
           Some (Inr (PFloat (py_fdiv1000 (round64 (of_int
                   (if sg = ''-'' then - dec_value ds else dec_value ds))))), [])"
proof -
  have ok: "crc_ok l0"
    unfolding assms(2) using assms(3) by (rule crc_ok_marker)
  have loop: "crc_loop raw [] (l0 # l1 # rest) = Some (Inr (Some (l0 # l1 # rest)), [])"
    using ok by (rule crc_loop_valid)
  have pos: "py_find ''t='' l1 = Some (length pre1)"
    unfolding assms(4) using assms(5) by (rule py_find_first)
  have rest: "drop (length pre1 + 2) l1 = sg @ ds @ ws1"
    unfolding assms(4) by simp
  have num: "py_float_of_string (sg @ ds @ ws1) =
           Inr (round64 (of_int (if sg = ''-'' then - dec_value ds else dec_value ds)))"
    using assms(7,8,9,6) by (rule float_of_int_literal)
  have "parse_temp (l0 # l1 # rest) =
           Inr (PFloat (py_fdiv1000 (round64 (of_int
                   (if sg = ''-'' then - dec_value ds else dec_value ds)))))"
    by (simp only: parse_temp_def list.case pos option.case rest num sum.case)
  then show ?thesis
    by (simp add: read_temp_def assms(1) loop)
qed

section \<open>Evaluating the frames of the fixtures\<close>



lemma celsius_23125: "py_fdiv1000 (round64 23125) = Finite (185 / 8)"
  by (simp add: float_eval)

lemma celsius_21562:
  "py_fdiv1000 (round64 21562) = Finite (6069163447835165 / 281474976710656)"
  by (simp add: float_eval)

lemma celsius_minus_5000: "py_fdiv1000 (round64 (- 5000)) = Finite (- 5)"
  by (simp add: float_eval)

lemma times10_21562:
  "int_of_times10 (PFloat (Finite (6069163447835165 / 281474976710656))) = Inr 215"
  by (simp add: float_eval)

lemma times10_minus_5: "int_of_times10 (PFloat (Finite (- 5))) = Inr (- 50)"
  by (simp add: float_eval)

lemma newline_blank: "\<forall>c\<in>set ''\<newline>''. is_space c" "\<forall>c\<in>set ''\<newline>''. is_float_space c"
  by (simp_all add: is_space_def is_float_space_def)

lemma read_frame:
  assumes "raw 0 = Some [pre0 @ ''YES\<newline>'', pre1 @ ''t='' @ sg @ ds @ ''\<newline>'']"
    and "py_find ''t='' pre1 = None" "sg = [] \<or> sg = ''-'' \<or> sg = ''+''"
    and "ds \<noteq> []" "\<forall>c\<in>set ds. is_digit c"
  shows "read_temp raw =
           Some (Inr (PFloat (py_fdiv1000 (round64 (of_int
                   (if sg = ''-'' then - dec_value ds else dec_value ds))))), [])"
proof (rule read_temp_valid [of raw "pre0 @ ''YES\<newline>''" "pre1 @ ''t='' @ sg @ ds @ ''\<newline>''"
          "[]" pre0 "''\<newline>''" pre1 sg ds "''\<newline>''"])
  show "\<forall>c\<in>set ''\<newline>''. is_space c" "\<forall>c\<in>set ''\<newline>''. is_float_space c"
    by (fact newline_blank)+
qed (use assms in simp_all)



lemma scenario_listing: "listing scenario_probes = [''28-0001'', ''28-0002'']"
  by (simp add: scenario_probes_def)

lemma scenario_read_1:
  "read_temp (files scenario_probes ''28-0001'')
     = Some (Inr (PFloat (Finite (6069163447835165 / 281474976710656))), [])"
proof -
  have "read_temp (files scenario_probes ''28-0001'') =
           Some (Inr (PFloat (py_fdiv1000 (round64 (of_int
                   (if [] = ''-'' then - dec_value ''21562'' else dec_value ''21562''))))), [])"
    by (rule read_frame [where ?pre0.0 = "''59 01 4b 46 7f ff 0c 10 2f : crc=2f ''"
          and ?pre1.0 = "''59 01 4b 46 7f ff 0c 10 2f ''"])
      (simp_all add: scenario_probes_def is_digit_def)
  then show ?thesis
    by (simp add: dec_value_def digit_val_def celsius_21562)
qed

lemma scenario_read_2:
  "read_temp (files scenario_probes ''28-0002'') = Some (Inr (PFloat (Finite (- 5))), [])"
proof -
  have "read_temp (files scenario_probes ''28-0002'') =
           Some (Inr (PFloat (py_fdiv1000 (round64 (of_int
                   (if ''-'' = ''-'' then - dec_value ''5000'' else dec_value ''5000''))))), [])"
    by (rule read_frame [where ?pre0.0 = "''b0 ff 4b 46 7f ff 0c 10 3c : crc=3c ''"
          and ?pre1.0 = "''b0 ff 4b 46 7f ff 0c 10 3c ''"])
      (simp_all add: scenario_probes_def is_digit_def)
  then show ?thesis
    by (simp add: dec_value_def digit_val_def celsius_minus_5000)
qed

lemma scenario_temperatures:
  "get_all_temperatures (listing scenario_probes) (files scenario_probes)
     = Some (Inr [(''28-0001'', PFloat (Finite (6069163447835165 / 281474976710656))),
                  (''28-0002'', PFloat (Finite (- 5)))])"
  by (simp add: get_all_temperatures_def scenario_listing scenario_read_1 scenario_read_2)

lemma upt_2: "[0..<2] = [0, 1]"
  by (simp add: numeral_2_eq_2)

lemma init_open:
  assumes "tr [] (Open example_config) = None"
  shows "init_state tr =
     (\<lparr>config = example_config, instrument = Some example_config\<rparr>, [(Open example_config, None)])"
  using assms by (simp add: init_state_def writer_init_def connect_def)

lemma scenario_tick:
  assumes "tr [] (Open example_config) = None"
    and "tr [(Open example_config, None)] (WriteRegister 4096 215 6) = None"
  shows "sensor_tick tr scenario_probes (init_state tr) =
     Some (Inr (),
       (case tr [(Open example_config, None), (WriteRegister 4096 215 6, None)]
                (WriteRegister 4097 (- 50) 6) of
          None \<Rightarrow>
            (\<lparr>config = example_config, instrument = Some example_config\<rparr>,
             [(Open example_config, None), (WriteRegister 4096 215 6, None),
              (WriteRegister 4097 (- 50) 6, None)])
        | Some e \<Rightarrow>
            (\<lparr>config = example_config, instrument = None\<rparr>,
             [(Open example_config, None), (WriteRegister 4096 215 6, None),
              (WriteRegister 4097 (- 50) 6, Some e)])))"
proof -
  have init: "init_state tr =
     (\<lparr>config = example_config, instrument = Some example_config\<rparr>, [(Open example_config, None)])"
    using assms(1) by (rule init_open)
  show ?thesis
    by (simp add: sensor_tick_def scenario_temperatures upt_2 init
        sensor_registers_def write_temperature_connected times10_21562 times10_minus_5 assms(2)
        format_f_def split: option.split)
qed

lemma range_checked_tick:
  "sensor_tick range_checked scenario_probes (init_state range_checked) =
     Some (Inr (),
       (\<lparr>config = example_config, instrument = None\<rparr>,
        [(Open example_config, None), (WriteRegister 4096 215 6, None),
         (WriteRegister 4097 (- 50) 6, Some ValueError)]))"
proof -
  have "sensor_tick range_checked scenario_probes (init_state range_checked) =
     Some (Inr (),
       (case range_checked [(Open example_config, None), (WriteRegister 4096 215 6, None)]
                (WriteRegister 4097 (- 50) 6) of
          None \<Rightarrow>
            (\<lparr>config = example_config, instrument = Some example_config\<rparr>,
             [(Open example_config, None), (WriteRegister 4096 215 6, None),
              (WriteRegister 4097 (- 50) 6, None)])
        | Some e \<Rightarrow>
            (\<lparr>config = example_config, instrument = None\<rparr>,
             [(Open example_config, None), (WriteRegister 4096 215 6, None),
              (WriteRegister 4097 (- 50) 6, Some e)])))"
    by (rule scenario_tick) (simp_all add: range_checked_def)
  then show ?thesis
    by (simp add: range_checked_def)
qed

lemma dead_probe_temperatures:
  "get_all_temperatures (listing dead_probe) (files dead_probe)
     = Some (Inr [(''28-0000'', PNonePair)])"
  by (simp add: get_all_temperatures_def dead_probe_def read_temp_def)

lemma dead_probe_tick:
  "sensor_tick accept_all dead_probe (init_state accept_all)
     = Some (Inl TypeError, (\<lparr>config = example_config, instrument = None\<rparr>,
         [(Open example_config, None)]))"
  by (simp add: sensor_tick_def dead_probe_temperatures init_accept_all sensor_registers_def
      write_temperature_connected int_of_times10_def format_f_def)

lemma dead_probe_main:
  "sensor_main accept_all [''28-0000''] (\<lambda>k. dead_probe) 3
     = Some (Crashed TypeError 0
         (\<lparr>config = example_config, instrument = None\<rparr>, [(Open example_config, None)]))"
  by (simp add: sensor_main_def init_state_def [symmetric] numeral_3_eq_3 dead_probe_tick)

section \<open>The claims about the probes and the loop\<close>

text \<open>
  C6. Take a raw payload of at least two lines whose first line ends with the marker
  \<open>YES\<close> (followed by white space only) and whose second line holds, after its first
  \<open>t=\<close>, an optionally signed string of decimal digits and then only blanks up to the end
  of the line. Let \<open>m\<close> be the integer that the digits denote by their places, with the
  sign. Then \<open>read_temp\<close> returns at once, without sleeping, the float \<open>float(m) / 1000.0\<close>,
  and that float is \<open>m / 1000\<close> up to the precision of a float: it differs from the
  quotient by at most the relative error \<open>2^-53\<close> of one rounding (for \<open>m\<close> of at most 53
  bits, which \<open>float(m)\<close> holds exactly).
\<close>

theorem read_temp_exact:
  assumes "raw 0 = Some (l0 # l1 # rest)"
    and "l0 = pre0 @ ''YES'' @ ws0" "\<forall>c\<in>set ws0. is_space c"
    and "l1 = pre1 @ ''t='' @ sg @ ds @ ws1" "py_find ''t='' pre1 = None"
    and "sg = [] \<or> sg = ''-'' \<or> sg = ''+''"
    and "ds \<noteq> []" "\<forall>c\<in>set ds. is_digit c" "\<forall>c\<in>set ws1. is_float_space c"
    and "m = (if sg = ''-'' then - int (decimal_value ds) else int (decimal_value ds))"
  shows "read_temp raw = Some (Inr (PFloat (py_fdiv1000 (round64 (of_int m)))), [])
       \<and> celsius_within_precision m (py_fdiv1000 (round64 (of_int m)))"
proof
  have "dec_value ds = int (decimal_value ds)"
    using assms(8) by (rule dec_value_decimal)
  then have "m = (if sg = ''-'' then - dec_value ds else dec_value ds)"
    using assms(10) by simp
  moreover have "read_temp raw =
           Some (Inr (PFloat (py_fdiv1000 (round64 (of_int
                   (if sg = ''-'' then - dec_value ds else dec_value ds))))), [])"
    using assms(1-9) by (rule read_temp_valid)
  ultimately show "read_temp raw = Some (Inr (PFloat (py_fdiv1000 (round64 (of_int m)))), [])"
    by simp
  show "celsius_within_precision m (py_fdiv1000 (round64 (of_int m)))"
    by (rule celsius_precision)
qed

theorem read_temp_exact_witness:
  "read_temp valid_frame = Some (Inr (PFloat (Finite (185 / 8))), [])
   \<and> celsius_within_precision 23125 (Finite (185 / 8))"
proof -
  have "read_temp valid_frame = Some (Inr (PFloat (py_fdiv1000 (round64 (of_int 23125)))), [])
       \<and> celsius_within_precision 23125 (py_fdiv1000 (round64 (of_int 23125)))"
  proof (rule read_temp_exact [where ?l0.0 = "''72 01 4b 46 7f ff 0e 10 57 : crc=57 YES\<newline>''"
          and ?l1.0 = "''72 01 4b 46 7f ff 0e 10 57 t=23125\<newline>''" and rest = "[]"
          and ?pre0.0 = "''72 01 4b 46 7f ff 0e 10 57 : crc=57 ''" and ?ws0.0 = "''\<newline>''"
          and ?pre1.0 = "''72 01 4b 46 7f ff 0e 10 57 ''" and ?ws1.0 = "''\<newline>''"
          and sg = "[]" and ds = "''23125''"])
    show "\<forall>c\<in>set ''\<newline>''. is_space c" "\<forall>c\<in>set ''\<newline>''. is_float_space c"
      by (simp_all add: is_space_def is_float_space_def)
  qed (simp_all add: valid_frame_def is_digit_def)
  then show ?thesis
    by (simp add: celsius_23125)
qed




text \<open>
  C5, at the failing input: one probe is discovered and its file cannot be read, the
  transport accepts every request and the stop signal would come after three ticks. The
  first tick ends the run with a TypeError: the loop does not reach a second tick.
\<close>

theorem sensor_main_stops_on_failed_probe:
  "sensor_main accept_all [''28-0000''] (\<lambda>k. dead_probe) 3
     = Some (Crashed TypeError 0
         (\<lparr>config = example_config, instrument = None\<rparr>, [(Open example_config, None)]))"
  by (rule dead_probe_main)

text \<open>
  C8, as amended. With two probes reading 21.562 and -5.0 degrees and the register map
  \<open>{0: 4096, 1: 4097}\<close>, on a line where the connection succeeds and the slave takes the
  write, one cycle of the loop ends without an exception and writes the wire value 215 to
  register 4096: the write with function code 6 is made once, it is accepted, and nothing
  else is written to that register.
\<close>

theorem scenario_cycle_writes:
  assumes "tr [] (Open example_config) = None"
    and "tr [(Open example_config, None)] (WriteRegister 4096 215 6) = None"
  shows "map_option (\<lambda>r. (fst r, register_events 4096 (new_events (init_state tr) (snd r))))
           (sensor_tick tr scenario_probes (init_state tr))
         = Some (Inr (), [(WriteRegister 4096 215 6, None)])"
proof -
  have init: "init_state tr =
     (\<lparr>config = example_config, instrument = Some example_config\<rparr>, [(Open example_config, None)])"
    using assms(1) by (rule init_open)
  note tick = scenario_tick [of tr, OF assms]
  show ?thesis
    unfolding tick
    by (simp add: init new_events_def register_events_def split: option.split)
qed

theorem scenario_cycle_writes_witness:
  "range_checked [] (Open example_config) = None
   \<and> range_checked [(Open example_config, None)] (WriteRegister 4096 215 6) = None
   \<and> map_option (\<lambda>r. (fst r, register_events 4096 (new_events (init_state range_checked) (snd r))))
           (sensor_tick range_checked scenario_probes (init_state range_checked))
         = Some (Inr (), [(WriteRegister 4096 215 6, None)])"
  using scenario_cycle_writes [of range_checked]
  by (simp add: range_checked_def)

text \<open>
  C8 as stated fails. Take the two probes reading 21.562 and -5.0 degrees, the register map
  \<open>{0: 4096, 1: 4097}\<close> and a healthy line: the cycle ends, and all it did on the line
  after the connection is one accepted write of 215 (not 216) to register 4096 and one
  refused write to register 4097. The float nearest to 21.562 times 10 is just below
  215.62, and \<open>int\<close> cuts the fraction off. The value -50 never reaches register 4097:
  \<open>write_register\<close> is called without \<open>signed=True\<close>, the library raises ValueError, and
  \<open>write_temperature\<close> drops the instrument and returns \<open>False\<close>.
\<close>

theorem scenario_cycle_counterexample:
  "map_option (\<lambda>r. (fst r, new_events (init_state range_checked) (snd r)))
     (sensor_tick range_checked scenario_probes (init_state range_checked))
   = Some (Inr (), [(WriteRegister 4096 215 6, None),
                    (WriteRegister 4097 (- 50) 6, Some ValueError)])"
  unfolding range_checked_tick
  by (simp add: init_open range_checked_def new_events_def)

end
